theory Spec2Isabelle
  imports Main "HOL-Library.AList"
begin

section \<open>The PropGrid service worker: platform values\<close>

text \<open>
  The worker (\<^verbatim>\<open>sw.js\<close> in the project tree) is a set of event listeners over the
  browser's service-worker platform. The platform objects the listeners touch are
  embedded as plain data:
  \<^item> a \<^verbatim>\<open>Request\<close> is a record of its URL, method, headers and body;
  \<^item> a \<^verbatim>\<open>Response\<close> is a record of its status, status text, headers and body, and
    \<^verbatim>\<open>response.ok\<close> is the platform's test "status in 200..299";
  \<^item> one \<^verbatim>\<open>Cache\<close> is the platform's list of (request, response) pairs, in insertion
    order; \<^verbatim>\<open>CacheStorage\<close> (\<^verbatim>\<open>caches\<close>) is an association list from cache name to
    cache, in creation order;
  \<^item> the network is a function from request to \<open>response option\<close>: \<open>None\<close> is a
    \<^verbatim>\<open>fetch\<close> that rejects, \<open>Some r\<close> a fetch that resolves with \<open>r\<close> (ok or not).
  A rejected promise or a \<^verbatim>\<open>throw\<close> is the \<open>Inl\<close> branch of a sum.
\<close>

record request =
  url :: string
  req_method :: string
  req_headers :: "(string \<times> string) list"
  req_body :: string

record response =
  status :: nat
  statusText :: string
  headers :: "(string \<times> string) list"
  body :: string

definition ok :: "response \<Rightarrow> bool" where
  "ok r = (200 \<le> status r \<and> status r \<le> 299)"

datatype error = TypeError | InvalidStateError

type_synonym cache = "(request \<times> response) list"
type_synonym cache_storage = "(string \<times> cache) list"
type_synonym network = "request \<Rightarrow> response option"

record sw_state =
  caches :: cache_storage
  network_log :: "request list"
  console :: "string list"
  skipWaiting_called :: bool
  clients_claimed :: bool
  notification_shown :: bool
  windows :: "string list"

subsection \<open>Strings and URLs\<close>

text \<open>\<^verbatim>\<open>String.prototype.includes\<close>: the argument occurs somewhere in the string.\<close>

fun str_includes :: "string \<Rightarrow> string \<Rightarrow> bool" where
  "str_includes [] sub = (sub = [])"
| "str_includes (c # cs) sub = (take (length sub) (c # cs) = sub \<or> str_includes cs sub)"

text \<open>
  \<^verbatim>\<open>new URL(u).origin\<close> for a serialised URL \<^verbatim>\<open>scheme://host/path\<close>: everything before
  the third slash.
\<close>

fun upto_slash :: "nat \<Rightarrow> string \<Rightarrow> string" where
  "upto_slash n [] = []"
| "upto_slash n (c # cs) =
     (if c = CHR ''/'' then (case n of 0 \<Rightarrow> [] | Suc m \<Rightarrow> c # upto_slash m cs)
      else c # upto_slash n cs)"

definition url_origin :: "string \<Rightarrow> string" where
  "url_origin u = upto_slash 2 u"

text \<open>
  The URL parser serialises a URL whose path is empty with the path \<^verbatim>\<open>/\<close>:
  \<^verbatim>\<open>https://cdn.tailwindcss.com\<close> becomes \<^verbatim>\<open>https://cdn.tailwindcss.com/\<close>.
  \<open>split_authority 2\<close> cuts a URL after \<^verbatim>\<open>scheme://authority\<close>, that is before the
  first slash, question mark or hash sign that follows the two slashes. The parser's other
  normalisations (case of the host, default ports, dot segments, percent encoding) change
  none of the URLs the worker writes and are not modelled.
\<close>

fun split_authority :: "nat \<Rightarrow> string \<Rightarrow> string \<times> string" where
  "split_authority n [] = ([], [])"
| "split_authority n (c # cs) =
     (if n = 0 \<and> c \<in> set ''/?#'' then ([], c # cs)
      else (case split_authority (if c = CHR ''/'' then n - 1 else n) cs of
              (a, rest) \<Rightarrow> (c # a, rest)))"

definition serialize_url :: "string \<Rightarrow> string" where
  "serialize_url u =
     (case split_authority 2 u of
        (a, rest) \<Rightarrow> if take 1 rest = ''/'' then u else a @ ''/'' @ rest)"

text \<open>
  A URL string handed to the platform (\<^verbatim>\<open>'/offline.html'\<close>, the entries of the precache
  list) is resolved against the worker's own origin \<^verbatim>\<open>self.location.origin\<close>: a path
  starting with a slash is appended to the origin, an absolute URL is serialised.
\<close>

definition resolve_url :: "string \<Rightarrow> string \<Rightarrow> string" where
  "resolve_url loc u = (if take 1 u = ''/'' then loc @ u else serialize_url u)"

text \<open>The request the platform builds from a URL string: a GET without headers or body.\<close>

definition get_request :: "string \<Rightarrow> request" where
  "get_request u = \<lparr>url = u, req_method = ''GET'', req_headers = [], req_body = ''''\<rparr>"

text \<open>The cache compares URLs with the fragment excluded, and stores http(s) URLs only.\<close>

definition strip_fragment :: "string \<Rightarrow> string" where
  "strip_fragment u = takeWhile (\<lambda>c. c \<noteq> CHR ''#'') u"

definition http_scheme :: "string \<Rightarrow> bool" where
  "http_scheme u = (take 7 u = ''http://'' \<or> take 8 u = ''https://'')"

subsection \<open>Headers\<close>

text \<open>
  Header names are compared without regard to ASCII case. The combined value of a header
  is the list of its values joined by a comma and a space, and is absent when the header
  is. The \<^verbatim>\<open>Vary\<close> header of a response lists field names, separated by commas and
  surrounded by optional spaces or tabs.
\<close>

definition ascii_lower :: "char \<Rightarrow> char" where
  "ascii_lower c =
     (case map_of (zip ''ABCDEFGHIJKLMNOPQRSTUVWXYZ'' ''abcdefghijklmnopqrstuvwxyz'') c of
        Some d \<Rightarrow> d
      | None \<Rightarrow> c)"

definition same_name :: "string \<Rightarrow> string \<Rightarrow> bool" where
  "same_name a b = (map ascii_lower a = map ascii_lower b)"

definition header_values :: "(string \<times> string) list \<Rightarrow> string \<Rightarrow> string list" where
  "header_values hs name = map snd (filter (\<lambda>(n, v). same_name n name) hs)"

fun join_values :: "string list \<Rightarrow> string" where
  "join_values [] = []"
| "join_values [v] = v"
| "join_values (v # w # vs) = v @ '', '' @ join_values (w # vs)"

definition header_get :: "(string \<times> string) list \<Rightarrow> string \<Rightarrow> string option" where
  "header_get hs name =
     (case header_values hs name of [] \<Rightarrow> None | v # vs \<Rightarrow> Some (join_values (v # vs)))"

fun split_on :: "char \<Rightarrow> string \<Rightarrow> string \<Rightarrow> string list" where
  "split_on d acc [] = [rev acc]"
| "split_on d acc (c # cs) =
     (if c = d then rev acc # split_on d [] cs else split_on d (c # acc) cs)"

definition trim :: "string \<Rightarrow> string" where
  "trim s =
     rev (dropWhile (\<lambda>c. c \<in> set [CHR '' '', CHR 0x09])
            (rev (dropWhile (\<lambda>c. c \<in> set [CHR '' '', CHR 0x09]) s)))"

definition vary_fields :: "response \<Rightarrow> string list" where
  "vary_fields r =
     map trim (concat (map (split_on CHR '','' []) (header_values (headers r) ''Vary'')))"

definition vary_star :: "response \<Rightarrow> bool" where
  "vary_star r = (''*'' \<in> set (vary_fields r))"

subsection \<open>Cache and CacheStorage operations\<close>

text \<open>
  "Request matches cached item", the test behind \<^verbatim>\<open>match\<close>, \<^verbatim>\<open>put\<close> and \<^verbatim>\<open>delete\<close>
  with default options: only a GET request matches anything; the URLs are equal with the
  fragment excluded; and for every field name in the cached response's \<^verbatim>\<open>Vary\<close> header,
  the field is not \<^verbatim>\<open>*\<close> and has the same combined value in the cached request and in
  the asking request.
\<close>

definition request_matches :: "request \<Rightarrow> request \<times> response \<Rightarrow> bool" where
  "request_matches q item =
     (case item of
        (cq, cr) \<Rightarrow>
          req_method q = ''GET'' \<and>
          strip_fragment (url q) = strip_fragment (url cq) \<and>
          list_all (\<lambda>f. f \<noteq> ''*'' \<and> header_get (req_headers cq) f = header_get (req_headers q) f)
            (vary_fields cr))"

text \<open>
  \<^verbatim>\<open>cache.match\<close> returns the response of the first matching item.
  \<^verbatim>\<open>cache.delete\<close> removes the matching items. \<^verbatim>\<open>cache.put\<close> rejects with a
  \<^verbatim>\<open>TypeError\<close> and stores nothing unless \<open>put_accepts\<close> holds: the request is a GET
  for an http(s) URL, the response's status is not 206 and its \<^verbatim>\<open>Vary\<close> header does
  not contain \<^verbatim>\<open>*\<close>. An accepted \<^verbatim>\<open>put\<close> removes the items that match the request and
  appends the new pair (\<open>add_item\<close>).
\<close>

definition cache_match :: "cache \<Rightarrow> request \<Rightarrow> response option" where
  "cache_match c q = map_option snd (find (request_matches q) c)"

definition cache_delete :: "cache \<Rightarrow> request \<Rightarrow> cache" where
  "cache_delete c q = filter (\<lambda>item. \<not> request_matches q item) c"

definition put_accepts :: "request \<Rightarrow> response \<Rightarrow> bool" where
  "put_accepts q r =
     (req_method q = ''GET'' \<and> http_scheme (url q) \<and> status r \<noteq> 206 \<and> \<not> vary_star r)"

definition add_item :: "cache \<Rightarrow> request \<Rightarrow> response \<Rightarrow> cache" where
  "add_item c q r = filter (\<lambda>item. \<not> request_matches q item) c @ [(q, r)]"

definition cache_put :: "cache \<Rightarrow> request \<Rightarrow> response \<Rightarrow> error + cache" where
  "cache_put c q r = (if put_accepts q r then Inr (add_item c q r) else Inl TypeError)"

text \<open>
  \<^verbatim>\<open>caches.open(name)\<close> creates the named cache when it does not exist yet;
  \<^verbatim>\<open>caches.keys()\<close> lists the names in creation order; \<^verbatim>\<open>caches.delete(name)\<close> removes
  a cache; \<^verbatim>\<open>caches.match(request)\<close> searches every cache in creation order and returns
  the first match. \<open>in_cache\<close> applies a cache operation to the cache of the given
  name, and \<open>cache_of\<close> reads that cache.
\<close>

definition caches_open :: "cache_storage \<Rightarrow> string \<Rightarrow> cache_storage" where
  "caches_open cs name = (if name \<in> set (map fst cs) then cs else cs @ [(name, [])])"

definition caches_keys :: "cache_storage \<Rightarrow> string list" where
  "caches_keys cs = map fst cs"

definition caches_delete :: "cache_storage \<Rightarrow> string \<Rightarrow> cache_storage" where
  "caches_delete cs name = AList.delete name cs"

fun caches_match :: "cache_storage \<Rightarrow> request \<Rightarrow> response option" where
  "caches_match [] q = None"
| "caches_match ((name, c) # cs) q =
     (case cache_match c q of Some r \<Rightarrow> Some r | None \<Rightarrow> caches_match cs q)"

fun in_cache :: "string \<Rightarrow> (cache \<Rightarrow> cache) \<Rightarrow> cache_storage \<Rightarrow> cache_storage" where
  "in_cache name f [] = []"
| "in_cache name f ((n, c) # cs) =
     (if n = name then (n, f c) # cs else (n, c) # in_cache name f cs)"

definition cache_of :: "cache_storage \<Rightarrow> string \<Rightarrow> cache" where
  "cache_of cs name = (case map_of cs name of Some c \<Rightarrow> c | None \<Rightarrow> [])"

text \<open>\<^verbatim>\<open>fetch(request)\<close>: the call is recorded, the network decides the outcome.\<close>

definition fetch :: "network \<Rightarrow> request \<Rightarrow> sw_state \<Rightarrow> response option \<times> sw_state" where
  "fetch net req st = (net req, st\<lparr>network_log := network_log st @ [req]\<rparr>)"

section \<open>The worker\<close>

definition STATIC_CACHE :: string where
  "STATIC_CACHE = ''propgrid-static-v1.0.0''"

definition DYNAMIC_CACHE :: string where
  "DYNAMIC_CACHE = ''propgrid-dynamic-v1.0.0''"

definition STATIC_FILES :: "string list" where
  "STATIC_FILES =
     [''/'',
      ''/index.html'',
      ''/script.js'',
      ''https://cdn.tailwindcss.com'',
      ''https://fonts.googleapis.com/css2?family=Inter:wght@400;500;600;700&display=swap'',
      ''https://cdnjs.cloudflare.com/ajax/libs/font-awesome/6.4.0/css/all.min.css'']"

subsection \<open>Activate\<close>

text \<open>
  The activate listener maps over \<^verbatim>\<open>caches.keys()\<close>, deletes every cache whose name is
  neither \<^verbatim>\<open>STATIC_CACHE\<close> nor \<^verbatim>\<open>DYNAMIC_CACHE\<close>, and then calls
  \<^verbatim>\<open>self.clients.claim()\<close>.
\<close>

definition activate_step :: "string \<Rightarrow> cache_storage \<Rightarrow> cache_storage" where
  "activate_step cacheName cs =
     (if cacheName \<noteq> STATIC_CACHE \<and> cacheName \<noteq> DYNAMIC_CACHE
      then caches_delete cs cacheName else cs)"

definition activate :: "sw_state \<Rightarrow> (error + unit) \<times> sw_state" where
  "activate st =
     (let cacheNames = caches_keys (caches st);
          cs = fold activate_step cacheNames (caches st)
      in (Inr (), st\<lparr>caches := cs, clients_claimed := True\<rparr>))"

subsection \<open>Install\<close>

text \<open>
  \<^verbatim>\<open>cache.addAll(urls)\<close> builds a GET request for every URL and rejects with a
  \<^verbatim>\<open>TypeError\<close> before any fetch when one of them is not an http(s) URL. It then
  fetches them all and rejects with a \<^verbatim>\<open>TypeError\<close>, storing nothing, when a fetch
  rejects or a response is not ok, has status 206 or has \<^verbatim>\<open>*\<close> in its \<^verbatim>\<open>Vary\<close>
  header. The responses are stored in one batch, each as an accepted \<^verbatim>\<open>put\<close> stores it;
  a request that matches an item added earlier in the same batch is an
  \<^verbatim>\<open>InvalidStateError\<close> and the cache is left as it was.
\<close>

fun fetch_all_ok :: "network \<Rightarrow> request list \<Rightarrow> response list option" where
  "fetch_all_ok net [] = Some []"
| "fetch_all_ok net (q # qs) =
     (case net q of
        None \<Rightarrow> None
      | Some r \<Rightarrow>
          if ok r \<and> status r \<noteq> 206 \<and> \<not> vary_star r
          then map_option ((#) r) (fetch_all_ok net qs) else None)"

fun batch_put :: "(request \<times> response) list \<Rightarrow> cache \<Rightarrow> cache \<Rightarrow> cache option" where
  "batch_put [] added c = Some c"
| "batch_put ((q, r) # es) added c =
     (if find (request_matches q) added \<noteq> None then None
      else batch_put es (added @ [(q, r)]) (add_item c q r))"

definition cache_addAll ::
  "string \<Rightarrow> network \<Rightarrow> string \<Rightarrow> string list \<Rightarrow> sw_state \<Rightarrow> (error + unit) \<times> sw_state" where
  "cache_addAll loc net name urls st =
     (let reqs = map (\<lambda>u. get_request (resolve_url loc u)) urls
      in if \<not> list_all (\<lambda>q. http_scheme (url q)) reqs then (Inl TypeError, st)
         else
           (let st1 = st\<lparr>network_log := network_log st @ reqs\<rparr>
            in case fetch_all_ok net reqs of
                 None \<Rightarrow> (Inl TypeError, st1)
               | Some rs \<Rightarrow>
                   (case batch_put (zip reqs rs) [] (cache_of (caches st1) name) of
                      None \<Rightarrow> (Inl InvalidStateError, st1)
                    | Some c \<Rightarrow>
                        (Inr (), st1\<lparr>caches := in_cache name (\<lambda>old. c) (caches st1)\<rparr>))))"

text \<open>
  The install listener hands \<^verbatim>\<open>event.waitUntil\<close> the chain
  \<^verbatim>\<open>caches.open(STATIC_CACHE).then(addAll).then(skipWaiting).catch(log)\<close>. The function
  returns the settlement of that chain: \<open>Inr ()\<close> when it fulfils, \<open>Inl e\<close> when it
  rejects. The \<^verbatim>\<open>.catch\<close> handler logs and returns normally.
\<close>

definition install :: "string \<Rightarrow> network \<Rightarrow> sw_state \<Rightarrow> (error + unit) \<times> sw_state" where
  "install loc net st =
     (let st1 = st\<lparr>caches := caches_open (caches st) STATIC_CACHE\<rparr>
      in case cache_addAll loc net STATIC_CACHE STATIC_FILES st1 of
           (Inr u, st2) \<Rightarrow> (Inr (), st2\<lparr>skipWaiting_called := True\<rparr>)
         | (Inl e, st2) \<Rightarrow>
             (Inr (), st2\<lparr>console := console st2 @ [''Service Worker install failed:'']\<rparr>))"

subsection \<open>Fetch\<close>

text \<open>
  A handler returns the settlement of its promise: \<open>Inr (Some r)\<close> is a response,
  \<open>Inr None\<close> is \<^verbatim>\<open>undefined\<close> (what \<^verbatim>\<open>caches.match\<close> resolves with on a miss), and
  \<open>Inl e\<close> is a rejection.

  Both handlers call \<^verbatim>\<open>cache.put(request, networkResponse.clone())\<close> without awaiting
  it. Its effect is applied at the point of the call. When the platform rejects the
  \<^verbatim>\<open>put\<close>, nothing is stored, the handler's \<^verbatim>\<open>try\<close> does not see the rejection, and
  the worker's \<^verbatim>\<open>unhandledrejection\<close> listener logs it.
\<close>

definition unawaited_put :: "string \<Rightarrow> request \<Rightarrow> response \<Rightarrow> sw_state \<Rightarrow> sw_state" where
  "unawaited_put name q r st =
     (case cache_put (cache_of (caches st) name) q r of
        Inr c \<Rightarrow> st\<lparr>caches := in_cache name (\<lambda>old. c) (caches st)\<rparr>
      | Inl e \<Rightarrow> st\<lparr>console := console st @ [''Service Worker unhandled rejection:'']\<rparr>)"

definition handleSameOriginRequest ::
  "string \<Rightarrow> network \<Rightarrow> request \<Rightarrow> sw_state \<Rightarrow> (error + response option) \<times> sw_state" where
  "handleSameOriginRequest loc net req st =
     (case fetch net req st of
        (Some networkResponse, st1) \<Rightarrow>
          (Inr (Some networkResponse),
           if ok networkResponse
           then unawaited_put DYNAMIC_CACHE req networkResponse
                  (st1\<lparr>caches := caches_open (caches st1) DYNAMIC_CACHE\<rparr>)
           else st1)
      | (None, st1) \<Rightarrow>
          (case caches_match (caches st1) req of
             Some cachedResponse \<Rightarrow> (Inr (Some cachedResponse), st1)
           | None \<Rightarrow>
               (Inr (caches_match (caches st1) (get_request (resolve_url loc ''/offline.html''))),
                st1)))"

definition tailwind_fallback :: response where
  "tailwind_fallback =
     \<lparr>status = 200, statusText = [], headers = [(''Content-Type'', ''text/css'')],
      body = ''/* Tailwind CSS fallback */''\<rparr>"

definition handleCDNRequest ::
  "network \<Rightarrow> request \<Rightarrow> sw_state \<Rightarrow> (error + response option) \<times> sw_state" where
  "handleCDNRequest net req st =
     (case caches_match (caches st) req of
        Some cachedResponse \<Rightarrow> (Inr (Some cachedResponse), st)
      | None \<Rightarrow>
          (case fetch net req st of
             (Some networkResponse, st1) \<Rightarrow>
               (Inr (Some networkResponse),
                if ok networkResponse
                then unawaited_put STATIC_CACHE req networkResponse
                       (st1\<lparr>caches := caches_open (caches st1) STATIC_CACHE\<rparr>)
                else st1)
           | (None, st1) \<Rightarrow>
               if str_includes (url req) ''tailwindcss.com''
               then (Inr (Some tailwind_fallback), st1)
               else (Inl TypeError, st1)))"

definition offline_response :: response where
  "offline_response =
     \<lparr>status = 503, statusText = ''Service Unavailable'',
      headers = [(''Content-Type'', ''text/plain;charset=UTF-8'')], body = ''Offline''\<rparr>"

definition handleExternalRequest ::
  "network \<Rightarrow> request \<Rightarrow> sw_state \<Rightarrow> (error + response option) \<times> sw_state" where
  "handleExternalRequest net req st =
     (case fetch net req st of
        (Some response, st1) \<Rightarrow> (Inr (Some response), st1)
      | (None, st1) \<Rightarrow> (Inr (Some offline_response), st1))"

text \<open>
  The fetch listener. \<open>None\<close> in the first component: the listener returned without
  \<^verbatim>\<open>event.respondWith\<close>, so the request is left to the browser.
\<close>

definition on_fetch ::
  "string \<Rightarrow> network \<Rightarrow> request \<Rightarrow> sw_state \<Rightarrow> (error + response option) option \<times> sw_state" where
  "on_fetch loc net req st =
     (let origin = url_origin (url req)
      in if req_method req \<noteq> ''GET'' then (None, st)
         else if origin = loc
         then map_prod Some id (handleSameOriginRequest loc net req st)
         else if str_includes origin ''cdn.tailwindcss.com'' \<or>
                 str_includes origin ''fonts.googleapis.com'' \<or>
                 str_includes origin ''cdnjs.cloudflare.com''
         then map_prod Some id (handleCDNRequest net req st)
         else map_prod Some id (handleExternalRequest net req st))"

subsection \<open>Background sync\<close>

text \<open>
  \<^verbatim>\<open>response.json()\<close>, JavaScript truthiness and \<^verbatim>\<open>JSON.stringify\<close> belong to the
  platform and are parameters: \<open>parse\<close> returns \<open>None\<close> where \<^verbatim>\<open>json()\<close> throws.
  \<^verbatim>\<open>getStoredFormData\<close> returns \<open>None\<close> for \<^verbatim>\<open>null\<close>.
\<close>

definition getStoredFormData ::
  "string \<Rightarrow> (string \<Rightarrow> 'j option) \<Rightarrow> sw_state \<Rightarrow> 'j option \<times> sw_state" where
  "getStoredFormData loc parse st =
     (let st1 = st\<lparr>caches := caches_open (caches st) DYNAMIC_CACHE\<rparr>
      in case cache_match (cache_of (caches st1) DYNAMIC_CACHE)
                (get_request (resolve_url loc ''/form-data'')) of
           None \<Rightarrow> (None, st1)
         | Some response \<Rightarrow>
             (case parse (body response) of
                Some j \<Rightarrow> (Some j, st1)
              | None \<Rightarrow>
                  (None, st1\<lparr>console := console st1 @ [''Error getting stored form data:'']\<rparr>)))"

definition clearStoredFormData :: "string \<Rightarrow> sw_state \<Rightarrow> sw_state" where
  "clearStoredFormData loc st =
     st\<lparr>caches := in_cache DYNAMIC_CACHE
                     (\<lambda>c. cache_delete c (get_request (resolve_url loc ''/form-data'')))
                     (caches_open (caches st) DYNAMIC_CACHE)\<rparr>"

definition signup_request :: "string \<Rightarrow> string \<Rightarrow> request" where
  "signup_request loc payload =
     \<lparr>url = resolve_url loc ''/api/signup'', req_method = ''POST'',
      req_headers = [(''Content-Type'', ''application/json'')], req_body = payload\<rparr>"

definition doBackgroundSync ::
  "string \<Rightarrow> (string \<Rightarrow> 'j option) \<Rightarrow> ('j \<Rightarrow> bool) \<Rightarrow> ('j \<Rightarrow> string) \<Rightarrow> network \<Rightarrow>
   sw_state \<Rightarrow> sw_state" where
  "doBackgroundSync loc parse truthy stringify net st =
     (case getStoredFormData loc parse st of
        (None, st1) \<Rightarrow> st1
      | (Some formData, st1) \<Rightarrow>
          if truthy formData
          then (case fetch net (signup_request loc (stringify formData)) st1 of
                  (Some response, st2) \<Rightarrow>
                    if ok response then clearStoredFormData loc st2 else st2
                | (None, st2) \<Rightarrow> st2\<lparr>console := console st2 @ [''Background sync failed:'']\<rparr>)
          else st1)"

definition on_sync ::
  "string \<Rightarrow> (string \<Rightarrow> 'j option) \<Rightarrow> ('j \<Rightarrow> bool) \<Rightarrow> ('j \<Rightarrow> string) \<Rightarrow> network \<Rightarrow>
   string \<Rightarrow> sw_state \<Rightarrow> sw_state" where
  "on_sync loc parse truthy stringify net tag st =
     (if tag = ''background-sync'' then doBackgroundSync loc parse truthy stringify net st
      else st)"

subsection \<open>Notifications\<close>

text \<open>
  The push listener shows a notification with two actions, given here as (action, title).
  The click listener receives the clicked action's name in \<^verbatim>\<open>event.action\<close>; a click on
  the notification body itself carries the empty string.
\<close>

definition notification_actions :: "(string \<times> string) list" where
  "notification_actions = [(''explore'', ''View Deal''), (''close'', ''Close'')]"

definition on_notificationclick :: "string \<Rightarrow> string \<Rightarrow> sw_state \<Rightarrow> sw_state" where
  "on_notificationclick loc action st =
     (let st1 = st\<lparr>notification_shown := False\<rparr>
      in if action = ''explore''
         then st1\<lparr>windows := windows st1 @ [resolve_url loc ''/'']\<rparr>
         else st1)"

subsection \<open>Reading the storage\<close>

text \<open>What \<^verbatim>\<open>match\<close> on the cache of a given name answers to a request.\<close>

definition entry :: "cache_storage \<Rightarrow> string \<Rightarrow> request \<Rightarrow> response option" where
  "entry cs name q = cache_match (cache_of cs name) q"

text \<open>
  The effect of a batch of puts in which no request repeats: one \<open>add_item\<close> after
  the other.
\<close>

fun put_all :: "(request \<times> response) list \<Rightarrow> cache \<Rightarrow> cache" where
  "put_all [] c = c"
| "put_all ((q, r) # es) c = put_all es (add_item c q r)"

section \<open>Example worlds\<close>

text \<open>
  Concrete inputs for the closed theorems below: a site origin, a network that answers
  every request with a 200 response whose body is the requested URL, a network that is
  down, and a worker state with no caches.
\<close>

definition site :: string where
  "site = ''https://propgrid.example''"

definition page :: "string \<Rightarrow> response" where
  "page b = \<lparr>status = 200, statusText = ''OK'', headers = [], body = b\<rparr>"

definition online :: network where
  "online req = Some (page (url req))"

definition offline :: network where
  "offline req = None"

definition fresh :: sw_state where
  "fresh = \<lparr>caches = [], network_log = [], console = [], skipWaiting_called = False,
     clients_claimed = False, notification_shown = True, windows = []\<rparr>"

text \<open>A storage that still holds the two generations of an older version.\<close>

definition upgraded :: sw_state where
  "upgraded = fresh\<lparr>caches :=
      [(''propgrid-static-v0.9.0'', [(get_request (site @ ''/''), page ''old home'')]),
       (''propgrid-dynamic-v0.9.0'', [(get_request (site @ ''/about.html''), page ''old about'')]),
       (STATIC_CACHE, [(get_request (site @ ''/''), page ''home'')])]\<rparr>"

text \<open>
  The worker state after an install into the empty storage with the network up, and a
  network that answers every request with a newer version of the page.
\<close>

definition installed :: sw_state where
  "installed = snd (install site online fresh)"

definition updated :: network where
  "updated req = Some (page ''new version'')"

text \<open>
  A network that answers everything with a 404; one that answers with a 206 partial
  response, which is ok; and one whose 200 responses carry \<^verbatim>\<open>Vary: *\<close> beside another
  field name.
\<close>

definition not_found :: response where
  "not_found = \<lparr>status = 404, statusText = ''Not Found'', headers = [], body = ''no such page''\<rparr>"

definition broken :: network where
  "broken req = Some not_found"

definition partial_content :: response where
  "partial_content =
     \<lparr>status = 206, statusText = ''Partial Content'',
      headers = [(''Content-Range'', ''bytes 0-99/2000'')], body = ''first bytes''\<rparr>"

definition ranged :: network where
  "ranged req = Some partial_content"

definition varying :: response where
  "varying =
     \<lparr>status = 200, statusText = ''OK'', headers = [(''vary'', ''Accept-Encoding, *'')],
      body = ''negotiated''\<rparr>"

definition negotiating :: network where
  "negotiating req = Some varying"

text \<open>Some requests, with the URLs as the platform serialises them.\<close>

definition index_request :: request where
  "index_request = get_request (site @ ''/index.html'')"

definition index_signup_request :: request where
  "index_signup_request = get_request (site @ ''/index.html#signup'')"

definition about_request :: request where
  "about_request = get_request (site @ ''/about.html'')"

definition tailwind_request :: request where
  "tailwind_request = get_request ''https://cdn.tailwindcss.com/''"

definition tailwind_script_request :: request where
  "tailwind_script_request = get_request ''https://cdn.tailwindcss.com/3.4.1''"

definition webfont_request :: request where
  "webfont_request =
     get_request ''https://cdnjs.cloudflare.com/ajax/libs/font-awesome/6.4.0/webfonts/fa-solid-900.woff2''"


text \<open>
  Stand-ins for the JSON functions of the platform: a value is kept as its text, the empty
  text does not parse, and every value is truthy. A storage with one pending submission,
  and a network whose signup endpoint accepts it.
\<close>

definition json_text :: "string \<Rightarrow> string option" where
  "json_text s = (if s = [] then None else Some s)"

definition pending :: sw_state where
  "pending = fresh\<lparr>caches :=
      [(DYNAMIC_CACHE, [(get_request (site @ ''/form-data''), page ''[42]'')])]\<rparr>"

definition accepting :: network where
  "accepting req = Some (page ''accepted'')"

section \<open>Properties\<close>

subsection \<open>Activation\<close>

lemma fold_activate_step:
  "fold activate_step ns cs =
   filter (\<lambda>(n, c). n \<notin> {x \<in> set ns. x \<noteq> STATIC_CACHE \<and> x \<noteq> DYNAMIC_CACHE}) cs"
proof (induction ns arbitrary: cs)
  case Nil
  then show ?case by simp
next
  case (Cons a ns)
  have "fold activate_step (a # ns) cs = fold activate_step ns (activate_step a cs)"
    by simp
  also have "\<dots> = filter (\<lambda>(n, c). n \<notin> {x \<in> set ns. x \<noteq> STATIC_CACHE \<and> x \<noteq> DYNAMIC_CACHE})
                     (activate_step a cs)"
    by (rule Cons.IH)
  also have "\<dots> = filter (\<lambda>(n, c). n \<notin> {x \<in> set (a # ns). x \<noteq> STATIC_CACHE \<and> x \<noteq> DYNAMIC_CACHE}) cs"
    unfolding activate_step_def caches_delete_def AList.delete_eq
    by (auto intro!: filter_cong)
  finally show ?case .
qed

lemma activate_caches:
  "caches (snd (activate st)) =
   filter (\<lambda>(n, c). n = STATIC_CACHE \<or> n = DYNAMIC_CACHE) (caches st)"
  unfolding activate_def Let_def fold_activate_step caches_keys_def
  by (force intro!: filter_cong)

lemma map_of_filter_keys:
  "map_of (filter (\<lambda>(n, c). P n) cs) n = (if P n then map_of cs n else None)"
  by (induction cs) auto

text \<open>
  C4: the activate listener fulfils; afterwards no cache whose name differs from both
  \<^verbatim>\<open>STATIC_CACHE\<close> and \<^verbatim>\<open>DYNAMIC_CACHE\<close> exists any more (in particular none of an older
  version, whose names differ), the two current generations are kept as they were, and
  the worker has claimed the open clients.
\<close>

theorem activate_deletes_old_generations:
  "fst (activate st) = Inr () \<and>
   (\<forall>n. n \<noteq> STATIC_CACHE \<and> n \<noteq> DYNAMIC_CACHE \<longrightarrow>
        n \<notin> set (caches_keys (caches (snd (activate st))))) \<and>
   (\<forall>n. n = STATIC_CACHE \<or> n = DYNAMIC_CACHE \<longrightarrow>
        map_of (caches (snd (activate st))) n = map_of (caches st) n) \<and>
   clients_claimed (snd (activate st))"
proof -
  have "fst (activate st) = Inr ()" "clients_claimed (snd (activate st))"
    by (simp_all add: activate_def Let_def)
  moreover have "\<forall>n. n \<noteq> STATIC_CACHE \<and> n \<noteq> DYNAMIC_CACHE \<longrightarrow>
        n \<notin> set (caches_keys (caches (snd (activate st))))"
    unfolding activate_caches caches_keys_def by auto
  moreover have "\<forall>n. n = STATIC_CACHE \<or> n = DYNAMIC_CACHE \<longrightarrow>
        map_of (caches (snd (activate st))) n = map_of (caches st) n"
    unfolding activate_caches by (simp add: map_of_filter_keys)
  ultimately show ?thesis by blast
qed

theorem activate_deletes_old_generations_witness:
  "''propgrid-static-v0.9.0'' \<in> set (caches_keys (caches upgraded)) \<and>
   ''propgrid-static-v0.9.0'' \<notin> set (caches_keys (caches (snd (activate upgraded)))) \<and>
   ''propgrid-dynamic-v0.9.0'' \<notin> set (caches_keys (caches (snd (activate upgraded)))) \<and>
   map_of (caches (snd (activate upgraded))) STATIC_CACHE =
     Some [(get_request (site @ ''/''), page ''home'')] \<and>
   clients_claimed (snd (activate upgraded))"
  using activate_deletes_old_generations [of upgraded]
  by (simp add: upgraded_def fresh_def STATIC_CACHE_def DYNAMIC_CACHE_def caches_keys_def)

subsection \<open>Storage lemmas\<close>

lemma find_append:
  "find P (xs @ ys) = (case find P xs of None \<Rightarrow> find P ys | Some x \<Rightarrow> Some x)"
  by (induction xs) auto


lemma request_matches_url:
  "request_matches q item \<Longrightarrow> strip_fragment (url q) = strip_fragment (url (fst item))"
  by (cases item) (simp add: request_matches_def)

lemma request_matches_self:
  "req_method q = ''GET'' \<Longrightarrow> \<not> vary_star r \<Longrightarrow> request_matches q (q, r)"
  by (auto simp add: request_matches_def vary_star_def list_all_iff)

lemma cache_match_put_same:
  assumes "req_method q = ''GET''" and "\<not> vary_star r"
  shows "cache_match (add_item c q r) q = Some r"
proof -
  have "find (request_matches q) (filter (\<lambda>item. \<not> request_matches q item) c) = None"
    by (simp add: find_None_iff)
  then show ?thesis
    using request_matches_self [OF assms]
    by (simp add: cache_match_def add_item_def find_append)
qed


lemma cache_match_delete_same: "cache_match (cache_delete c q) q = None"
  by (simp add: cache_match_def cache_delete_def find_None_iff)

lemma set_add_item: "set (add_item c q r) \<subseteq> insert (q, r) (set c)"
  by (auto simp add: add_item_def)

lemma map_of_in_cache:
  "map_of (in_cache name f cs) n =
   (if n = name then map_option f (map_of cs name) else map_of cs n)"
  by (induction cs) auto

lemma map_of_caches_open:
  "map_of (caches_open cs name) n =
   (if n = name \<and> map_of cs name = None then Some [] else map_of cs n)"
proof (cases "name \<in> fst ` set cs")
  case True
  then have "map_of cs name \<noteq> None" by (simp add: map_of_eq_None_iff)
  with True show ?thesis by (simp add: caches_open_def)
next
  case False
  then have none: "map_of cs name = None" by (simp add: map_of_eq_None_iff)
  show ?thesis
  proof (cases "map_of cs n")
    case None
    with False none show ?thesis by (simp add: caches_open_def map_add_def)
  next
    case (Some c)
    with False none show ?thesis by (auto simp add: caches_open_def map_add_def)
  qed
qed

lemma caches_open_Cons:
  "caches_open ((n, c) # cs) name =
   (if n = name then (n, c) # cs else (n, c) # caches_open cs name)"
  by (simp add: caches_open_def)

lemma caches_open_exists: "map_of cs name = Some c \<Longrightarrow> caches_open cs name = cs"
  by (auto simp add: caches_open_def dest: map_of_SomeD intro: rev_image_eqI)

lemma cache_of_caches_open: "cache_of (caches_open cs name) n = cache_of cs n"
  by (simp add: cache_of_def map_of_caches_open)

lemma cache_of_in_cache_open:
  "cache_of (in_cache name f (caches_open cs name)) n =
   (if n = name then f (cache_of cs name) else cache_of cs n)"
  by (simp add: cache_of_def map_of_in_cache map_of_caches_open split: option.split)

lemma entry_put_open:
  "req_method q = ''GET'' \<Longrightarrow> \<not> vary_star r \<Longrightarrow>
   entry (in_cache name (\<lambda>c. add_item c q r) (caches_open cs name)) name q = Some r"
  by (simp add: entry_def cache_of_in_cache_open cache_match_put_same)

lemma caches_match_put_open:
  assumes "req_method q = ''GET''" and "\<not> vary_star r"
  shows "caches_match (in_cache name (\<lambda>c. add_item c q r) (caches_open cs name)) q =
   (case caches_match (takeWhile (\<lambda>(n, c). n \<noteq> name) cs) q of
      Some x \<Rightarrow> Some x | None \<Rightarrow> Some r)"
proof (induction cs)
  case Nil
  then show ?case
    by (simp add: caches_open_def cache_match_put_same [OF assms])
next
  case (Cons p cs)
  obtain n c where p: "p = (n, c)" by (cases p)
  show ?case
  proof (cases "n = name")
    case True
    then show ?thesis
      by (simp add: p caches_open_Cons cache_match_put_same [OF assms])
  next
    case False
    then show ?thesis
      using Cons.IH by (simp add: p caches_open_Cons split: option.split)
  qed
qed

lemma take_append_full:
  assumes "take n a = p" and "length p = n"
  shows "take n (a @ b) = p"
proof -
  from assms have "length (take n a) = n" by simp
  then have "n \<le> length a" by simp
  with assms(1) show ?thesis by simp
qed

lemma caches_match_open: "caches_match (caches_open cs name) q = caches_match cs q"
proof -
  have "caches_match (xs @ [(name, [])]) q = caches_match xs q" for xs
    by (induction xs) (auto simp add: cache_match_def split: option.split)
  then show ?thesis by (simp add: caches_open_def)
qed

lemma http_scheme_append:
  assumes "http_scheme a"
  shows "http_scheme (a @ b)"
proof -
  from assms consider "take 7 a = ''http://''" | "take 8 a = ''https://''"
    unfolding http_scheme_def by blast
  then show ?thesis
  proof cases
    case 1
    then have "take 7 (a @ b) = ''http://''"
      by (rule take_append_full) simp
    then show ?thesis by (simp add: http_scheme_def)
  next
    case 2
    then have "take 8 (a @ b) = ''https://''"
      by (rule take_append_full) simp
    then show ?thesis by (simp add: http_scheme_def)
  qed
qed

lemma upto_slash_prefix: "\<exists>t. u = upto_slash n u @ t"
  by (induction n u rule: upto_slash.induct) (auto split: nat.split)

lemma http_scheme_origin: "url_origin u = loc \<Longrightarrow> http_scheme loc \<Longrightarrow> http_scheme u"
proof -
  assume o: "url_origin u = loc" and h: "http_scheme loc"
  obtain t where "u = url_origin u @ t"
    unfolding url_origin_def using upto_slash_prefix by blast
  with o have "u = loc @ t" by simp
  with h show ?thesis by (simp add: http_scheme_append)
qed

lemma in_cache_of:
  "in_cache name (\<lambda>old. f (cache_of (pre @ cs) name)) cs = in_cache name f cs"
  if "name \<notin> fst ` set pre"
  using that
proof (induction cs arbitrary: pre)
  case Nil
  then show ?case by simp
next
  case (Cons p cs)
  obtain n c where p: "p = (n, c)" by (cases p)
  have none: "map_of pre name = None"
    using Cons.prems by (simp add: map_of_eq_None_iff)
  show ?case
  proof (cases "n = name")
    case True
    then show ?thesis
      by (simp add: p cache_of_def map_add_def none)
  next
    case False
    then have "name \<notin> fst ` set (pre @ [(n, c)])"
      using Cons.prems by auto
    from Cons.IH [OF this] False show ?thesis
      by (simp add: p)
  qed
qed

lemma unawaited_put_accepted:
  "put_accepts q r \<Longrightarrow>
   caches (unawaited_put name q r st) = in_cache name (\<lambda>c. add_item c q r) (caches st)"
  using in_cache_of [of name "[]" "\<lambda>c. add_item c q r" "caches st"]
  by (simp add: unawaited_put_def cache_put_def)

lemma unawaited_put_rejected:
  "\<not> put_accepts q r \<Longrightarrow> caches (unawaited_put name q r st) = caches st"
  by (simp add: unawaited_put_def cache_put_def)

lemma unawaited_put_log [simp]: "network_log (unawaited_put name q r st) = network_log st"
  by (simp add: unawaited_put_def split: sum.split)

lemma same_origin_dispatch:
  "req_method req = ''GET'' \<Longrightarrow> url_origin (url req) = loc \<Longrightarrow>
   on_fetch loc net req st = map_prod Some id (handleSameOriginRequest loc net req st)"
  by (simp add: on_fetch_def Let_def)


subsection \<open>The precache list and the batch of the install\<close>

lemma resolved_manifest:
  "map (resolve_url loc) STATIC_FILES =
     [loc @ ''/'', loc @ ''/index.html'', loc @ ''/script.js'',
      ''https://cdn.tailwindcss.com/'',
      ''https://fonts.googleapis.com/css2?family=Inter:wght@400;500;600;700&display=swap'',
      ''https://cdnjs.cloudflare.com/ajax/libs/font-awesome/6.4.0/css/all.min.css'']"
  by (simp add: STATIC_FILES_def resolve_url_def serialize_url_def)

lemma strip_fragment_id: "CHR ''#'' \<notin> set u \<Longrightarrow> strip_fragment u = u"
  by (auto simp add: strip_fragment_def)

lemma append_neq_by_rev: "rev ys @ rev xs \<noteq> rev zs \<Longrightarrow> xs @ ys \<noteq> zs"
  by (metis rev_append)

lemma manifest_keys:
  assumes "CHR ''#'' \<notin> set loc"
  shows "map (\<lambda>u. strip_fragment (resolve_url loc u)) STATIC_FILES =
         map (resolve_url loc) STATIC_FILES"
  using assms by (simp add: STATIC_FILES_def resolve_url_def serialize_url_def strip_fragment_id)

lemma manifest_distinct:
  assumes "loc \<noteq> ''https://cdn.tailwindcss.com''"
  shows "distinct (map (resolve_url loc) STATIC_FILES)"
  unfolding resolved_manifest
  using assms by (simp add: append_neq_by_rev append_neq_by_rev [symmetric])

lemma manifest_http:
  assumes "http_scheme loc"
  shows "list_all (\<lambda>u. http_scheme (resolve_url loc u)) STATIC_FILES"
proof -
  have "list_all http_scheme (map (resolve_url loc) STATIC_FILES)"
    unfolding resolved_manifest
    using http_scheme_append [OF assms] by (simp add: http_scheme_def)
  then show ?thesis by (simp add: list_all_iff)
qed

lemma fetch_all_ok_all:
  "(\<forall>q \<in> set qs. \<exists>r. net q = Some r \<and> ok r \<and> status r \<noteq> 206 \<and> \<not> vary_star r) \<Longrightarrow>
   fetch_all_ok net qs = Some (map (\<lambda>q. the (net q)) qs)"
  by (induction qs) auto

lemma batch_put_distinct:
  "distinct (map (\<lambda>e. strip_fragment (url (fst e))) es) \<Longrightarrow>
   (\<forall>a \<in> set added. \<forall>e \<in> set es.
       strip_fragment (url (fst a)) \<noteq> strip_fragment (url (fst e))) \<Longrightarrow>
   batch_put es added c = Some (put_all es c)"
proof (induction es arbitrary: added c)
  case Nil
  then show ?case by simp
next
  case (Cons e es)
  obtain q r where e: "e = (q, r)" by (cases e)
  have "\<not> (\<exists>a. a \<in> set added \<and> request_matches q a)"
  proof
    assume "\<exists>a. a \<in> set added \<and> request_matches q a"
    then obtain a where a: "a \<in> set added" "request_matches q a" by blast
    from request_matches_url [OF a(2)] Cons.prems(2) a(1) show False
      by (auto simp add: e)
  qed
  then have none: "find (request_matches q) added = None"
    by (simp add: find_None_iff)
  have d: "distinct (map (\<lambda>e. strip_fragment (url (fst e))) es)"
    using Cons.prems(1) by simp
  have sep: "\<forall>a \<in> set (added @ [(q, r)]). \<forall>e \<in> set es.
               strip_fragment (url (fst a)) \<noteq> strip_fragment (url (fst e))"
    using Cons.prems by (auto simp add: e)
  from Cons.IH [OF d sep] none show ?case
    by (simp add: e)
qed

lemma put_all_fresh:
  "distinct (map (\<lambda>e. strip_fragment (url (fst e))) es) \<Longrightarrow>
   (\<forall>a \<in> set c. \<forall>e \<in> set es.
       strip_fragment (url (fst a)) \<noteq> strip_fragment (url (fst e))) \<Longrightarrow>
   put_all es c = c @ es"
proof (induction es arbitrary: c)
  case Nil
  then show ?case by simp
next
  case (Cons e es)
  obtain q r where e: "e = (q, r)" by (cases e)
  have "\<forall>a \<in> set c. \<not> request_matches q a"
  proof
    fix a assume a: "a \<in> set c"
    show "\<not> request_matches q a"
    proof
      assume "request_matches q a"
      from request_matches_url [OF this] Cons.prems(2) a show False
        by (auto simp add: e)
    qed
  qed
  then have put: "add_item c q r = c @ [(q, r)]"
    by (simp add: add_item_def)
  have d: "distinct (map (\<lambda>e. strip_fragment (url (fst e))) es)"
    using Cons.prems(1) by simp
  have sep: "\<forall>a \<in> set (c @ [(q, r)]). \<forall>e \<in> set es.
               strip_fragment (url (fst a)) \<noteq> strip_fragment (url (fst e))"
    using Cons.prems by (auto simp add: e)
  from Cons.IH [OF d sep] show ?case
    by (simp add: e put)
qed




text \<open>
  The install when every URL of the list is fetched with a response that the cache
  accepts, for a worker whose origin is an http(s) origin other than the CSS framework's
  (so that no two URLs of the list coincide).
\<close>

lemma install_success:
  assumes ok: "\<forall>u \<in> set STATIC_FILES. \<exists>r. net (get_request (resolve_url loc u)) = Some r \<and>
                  ok r \<and> status r \<noteq> 206 \<and> \<not> vary_star r"
    and http: "http_scheme loc" and frag: "CHR ''#'' \<notin> set loc"
    and cdn: "loc \<noteq> ''https://cdn.tailwindcss.com''"
  shows "skipWaiting_called (snd (install loc net st)) \<and>
    caches (snd (install loc net st)) =
      in_cache STATIC_CACHE
        (\<lambda>old. put_all (map (\<lambda>u. (get_request (resolve_url loc u),
                                   the (net (get_request (resolve_url loc u))))) STATIC_FILES)
                  (cache_of (caches st) STATIC_CACHE))
        (caches_open (caches st) STATIC_CACHE)"
proof -
  define reqs where "reqs = map (\<lambda>u. get_request (resolve_url loc u)) STATIC_FILES"
  define es where "es = map (\<lambda>u. (get_request (resolve_url loc u),
                                   the (net (get_request (resolve_url loc u))))) STATIC_FILES"
  have h: "list_all (\<lambda>q. http_scheme (url q)) reqs"
    using manifest_http [OF http] by (simp add: reqs_def list_all_iff get_request_def)
  have "\<forall>q \<in> set reqs. \<exists>r. net q = Some r \<and> ok r \<and> status r \<noteq> 206 \<and> \<not> vary_star r"
    using ok by (auto simp add: reqs_def)
  then have f: "fetch_all_ok net reqs = Some (map (\<lambda>q. the (net q)) reqs)"
    by (rule fetch_all_ok_all)
  have z: "zip reqs (map (\<lambda>q. the (net q)) reqs) = es"
    by (simp add: reqs_def es_def zip_map_map comp_def zip_same_conv_map)
  have k: "map (\<lambda>e. strip_fragment (url (fst e))) es =
           map (\<lambda>u. strip_fragment (resolve_url loc u)) STATIC_FILES"
    by (simp add: es_def comp_def get_request_def)
  have d: "distinct (map (\<lambda>e. strip_fragment (url (fst e))) es)"
    unfolding k manifest_keys [OF frag] by (rule manifest_distinct [OF cdn])
  have b: "batch_put es [] c = Some (put_all es c)" for c
    by (rule batch_put_distinct [OF d]) simp
  have a: "cache_addAll loc net STATIC_CACHE STATIC_FILES st1 =
           (Inr (), st1\<lparr>network_log := network_log st1 @ reqs,
                        caches := in_cache STATIC_CACHE
                                    (\<lambda>old. put_all es (cache_of (caches st1) STATIC_CACHE))
                                    (caches st1)\<rparr>)" for st1
    unfolding cache_addAll_def Let_def reqs_def [symmetric]
    by (simp add: h f z b)
  show ?thesis
    unfolding install_def Let_def a es_def [symmetric]
    by (simp add: cache_of_caches_open)
qed


text \<open>The example worlds, evaluated once.\<close>

lemma site_facts:
  "http_scheme site" "CHR ''#'' \<notin> set site" "site \<noteq> ''https://cdn.tailwindcss.com''"
  by (simp_all add: site_def http_scheme_def)

lemma page_facts: "ok (page b)" "status (page b) \<noteq> 206" "\<not> vary_star (page b)"
  by (simp_all add: page_def ok_def vary_star_def vary_fields_def header_values_def)

lemma installed_caches:
  "caches installed =
     [(STATIC_CACHE,
       [(get_request (site @ ''/''), page (site @ ''/'')),
        (get_request (site @ ''/index.html''), page (site @ ''/index.html'')),
        (get_request (site @ ''/script.js''), page (site @ ''/script.js'')),
        (get_request ''https://cdn.tailwindcss.com/'', page ''https://cdn.tailwindcss.com/''),
        (get_request ''https://fonts.googleapis.com/css2?family=Inter:wght@400;500;600;700&display=swap'',
         page ''https://fonts.googleapis.com/css2?family=Inter:wght@400;500;600;700&display=swap''),
        (get_request ''https://cdnjs.cloudflare.com/ajax/libs/font-awesome/6.4.0/css/all.min.css'',
         page ''https://cdnjs.cloudflare.com/ajax/libs/font-awesome/6.4.0/css/all.min.css'')])]"
proof -
  let ?es = "map (\<lambda>u. (get_request (resolve_url site u),
                        the (online (get_request (resolve_url site u))))) STATIC_FILES"
  have o: "\<forall>u \<in> set STATIC_FILES. \<exists>r. online (get_request (resolve_url site u)) = Some r \<and>
              ok r \<and> status r \<noteq> 206 \<and> \<not> vary_star r"
    by (simp add: online_def page_facts)
  have k: "map (\<lambda>e. strip_fragment (url (fst e))) ?es =
           map (\<lambda>u. strip_fragment (resolve_url site u)) STATIC_FILES"
    by (simp add: comp_def get_request_def)
  have d: "distinct (map (\<lambda>e. strip_fragment (url (fst e))) ?es)"
    unfolding k manifest_keys [OF site_facts(2)] by (rule manifest_distinct [OF site_facts(3)])
  have p: "put_all ?es [] = [] @ ?es"
    by (rule put_all_fresh [OF d]) simp
  have e: "map (\<lambda>u. (get_request (resolve_url site u),
                      the (online (get_request (resolve_url site u))))) STATIC_FILES =
           map (\<lambda>u. (get_request u, page u)) (map (resolve_url site) STATIC_FILES)"
    by (simp add: comp_def online_def get_request_def)
  have c0: "caches fresh = []"
    by (simp add: fresh_def)
  have "caches installed =
        in_cache STATIC_CACHE (\<lambda>old. put_all ?es (cache_of (caches fresh) STATIC_CACHE))
          (caches_open (caches fresh) STATIC_CACHE)"
    unfolding installed_def by (rule conjunct2 [OF install_success [OF o site_facts]])
  also have "\<dots> = [(STATIC_CACHE, put_all ?es [])]"
    by (simp add: c0 caches_open_def cache_of_def)
  also have "put_all ?es [] = ?es"
    using p by simp
  also have "?es = map (\<lambda>u. (get_request u, page u)) (map (resolve_url site) STATIC_FILES)"
    by (rule e)
  finally show ?thesis
    by (simp add: resolved_manifest)
qed


lemma site_origin:
  "url_origin (url index_request) = site" "url_origin (url index_signup_request) = site"
  "url_origin (url about_request) = site"
  by (simp_all add: index_request_def index_signup_request_def about_request_def get_request_def
      url_origin_def site_def numeral_2_eq_2)

lemma get_requests:
  "req_method index_request = ''GET''" "req_method index_signup_request = ''GET''"
  "req_method about_request = ''GET''"
  by (simp_all add: index_request_def index_signup_request_def about_request_def get_request_def)

lemma installed_lookups:
  "caches_match (caches installed) index_request = Some (page (site @ ''/index.html''))"
  "caches_match (caches installed) index_signup_request = Some (page (site @ ''/index.html''))"
  "caches_match (caches installed) about_request = None"
  "caches_match (caches installed) (get_request (resolve_url site ''/offline.html'')) = None"
  by (simp_all add: installed_caches cache_match_def request_matches_def strip_fragment_def
      index_request_def index_signup_request_def about_request_def get_request_def
      resolve_url_def vary_fields_def header_values_def page_def site_def)

lemma installed_dynamic: "cache_of (caches installed) DYNAMIC_CACHE = []"
  by (simp add: installed_caches cache_of_def STATIC_CACHE_def DYNAMIC_CACHE_def)

subsection \<open>Same-origin requests\<close>

lemma same_origin_answered:
  "net req = Some r \<Longrightarrow>
   handleSameOriginRequest loc net req st =
     (Inr (Some r),
      if ok r
      then unawaited_put DYNAMIC_CACHE req r
             (st\<lparr>network_log := network_log st @ [req],
                  caches := caches_open (caches st) DYNAMIC_CACHE\<rparr>)
      else st\<lparr>network_log := network_log st @ [req]\<rparr>)"
  by (simp add: handleSameOriginRequest_def fetch_def)

lemma same_origin_unanswered:
  assumes "req_method req = ''GET''" and "url_origin (url req) = loc" and "net req = None"
  shows "fst (on_fetch loc net req st) =
         Some (Inr (case caches_match (caches st) req of
                      Some cachedResponse \<Rightarrow> Some cachedResponse
                    | None \<Rightarrow>
                        caches_match (caches st) (get_request (resolve_url loc ''/offline.html''))))"
  using assms(3)
  by (simp add: same_origin_dispatch [OF assms(1,2)] handleSameOriginRequest_def fetch_def
      split: option.split)

text \<open>
  C1, as the code has it: for a same-origin GET request (the worker's origin being an
  http(s) origin) the listener calls \<^verbatim>\<open>fetch\<close> first. Whatever the network answers is
  returned. An ok answer that the cache accepts (status other than 206, no \<^verbatim>\<open>*\<close> in
  \<^verbatim>\<open>Vary\<close>) is stored in the dynamic generation, where a lookup with the same request
  finds it, and nothing else in the storage changes; any other answer leaves the contents
  of every cache as they were. When the
  fetch rejects, the answer is the first match that \<^verbatim>\<open>caches.match\<close> finds in any
  generation, searched in creation order; when there is none, it is whatever
  \<^verbatim>\<open>caches.match('/offline.html')\<close> finds, and the storage is left as it was.
\<close>

theorem same_origin_network_first:
  assumes "req_method req = ''GET''" and "url_origin (url req) = loc" and "http_scheme loc"
  shows "network_log (snd (on_fetch loc net req st)) = network_log st @ [req] \<and>
    (\<forall>r. net req = Some r \<longrightarrow> fst (on_fetch loc net req st) = Some (Inr (Some r))) \<and>
    (\<forall>r. net req = Some r \<and> ok r \<and> status r \<noteq> 206 \<and> \<not> vary_star r \<longrightarrow>
         entry (caches (snd (on_fetch loc net req st))) DYNAMIC_CACHE req = Some r \<and>
         cache_of (caches (snd (on_fetch loc net req st))) DYNAMIC_CACHE =
           add_item (cache_of (caches st) DYNAMIC_CACHE) req r \<and>
         (\<forall>n. n \<noteq> DYNAMIC_CACHE \<longrightarrow>
              cache_of (caches (snd (on_fetch loc net req st))) n = cache_of (caches st) n)) \<and>
    (\<forall>r. net req = Some r \<and> (\<not> ok r \<or> status r = 206 \<or> vary_star r) \<longrightarrow>
         (\<forall>n. cache_of (caches (snd (on_fetch loc net req st))) n = cache_of (caches st) n)) \<and>
    (net req = None \<longrightarrow>
       fst (on_fetch loc net req st) =
         Some (Inr (case caches_match (caches st) req of
                      Some cachedResponse \<Rightarrow> Some cachedResponse
                    | None \<Rightarrow>
                        caches_match (caches st) (get_request (resolve_url loc ''/offline.html'')))) \<and>
       caches (snd (on_fetch loc net req st)) = caches st)"
proof (cases "net req")
  case None
  then show ?thesis
    by (simp add: same_origin_dispatch [OF assms(1,2)] handleSameOriginRequest_def fetch_def
        split: option.split)
next
  case (Some r)
  have http: "http_scheme (url req)"
    using assms(2,3) by (rule http_scheme_origin)
  note d = same_origin_dispatch [OF assms(1,2)] same_origin_answered [of net req, OF Some]
  have acc: "put_accepts req r \<longleftrightarrow> status r \<noteq> 206 \<and> \<not> vary_star r"
    using assms(1) http by (simp add: put_accepts_def)
  have log: "network_log (snd (on_fetch loc net req st)) = network_log st @ [req]"
    by (simp add: d)
  have res: "fst (on_fetch loc net req st) = Some (Inr (Some r))"
    by (simp add: d)
  have stored: "entry (caches (snd (on_fetch loc net req st))) DYNAMIC_CACHE req = Some r \<and>
         cache_of (caches (snd (on_fetch loc net req st))) DYNAMIC_CACHE =
           add_item (cache_of (caches st) DYNAMIC_CACHE) req r \<and>
         (\<forall>n. n \<noteq> DYNAMIC_CACHE \<longrightarrow>
              cache_of (caches (snd (on_fetch loc net req st))) n = cache_of (caches st) n)"
    if "ok r" "status r \<noteq> 206" "\<not> vary_star r"
    using that acc assms(1)
    by (simp add: d unawaited_put_accepted entry_put_open cache_of_in_cache_open)
  have kept: "cache_of (caches (snd (on_fetch loc net req st))) n = cache_of (caches st) n"
    if "\<not> ok r \<or> status r = 206 \<or> vary_star r" for n
  proof (cases "ok r")
    case False
    then show ?thesis by (simp add: d)
  next
    case True
    with that acc have "\<not> put_accepts req r" by blast
    with True show ?thesis
      by (simp add: d unawaited_put_rejected cache_of_caches_open)
  qed
  from log res stored kept Some show ?thesis by simp
qed

text \<open>
  The theorem at concrete requests: the index page with the network up and no caches; the
  same with the network down; after an install and with the network down, the index page
  asked with a fragment, which the static generation answers; and a 206 answer, which is
  returned and not stored.
\<close>

theorem same_origin_network_first_witness:
  "req_method index_request = ''GET'' \<and> url_origin (url index_request) = site \<and>
   http_scheme site \<and>
   fst (on_fetch site online index_request fresh) = Some (Inr (Some (page (site @ ''/index.html'')))) \<and>
   entry (caches (snd (on_fetch site online index_request fresh))) DYNAMIC_CACHE index_request =
     Some (page (site @ ''/index.html'')) \<and>
   fst (on_fetch site offline index_request fresh) = Some (Inr None) \<and>
   fst (on_fetch site offline index_signup_request installed) =
     Some (Inr (Some (page (site @ ''/index.html'')))) \<and>
   ranged about_request = Some partial_content \<and> status partial_content = 206 \<and>
   fst (on_fetch site ranged about_request installed) = Some (Inr (Some partial_content)) \<and>
   cache_of (caches (snd (on_fetch site ranged about_request installed))) DYNAMIC_CACHE =
     cache_of (caches installed) DYNAMIC_CACHE"
proof -
  have up: "online index_request = Some (page (site @ ''/index.html''))"
    by (simp add: online_def index_request_def get_request_def)
  have down: "offline index_request = None" "offline index_signup_request = None"
    by (simp_all add: offline_def)
  have part: "ranged about_request = Some partial_content" "status partial_content = 206"
    by (simp_all add: ranged_def partial_content_def)
  have empty: "caches_match (caches fresh) index_request = None"
    "caches_match (caches fresh) (get_request (resolve_url site ''/offline.html'')) = None"
    by (simp_all add: fresh_def)
  show ?thesis
    using up down part empty get_requests site_origin site_facts(1) page_facts installed_lookups
      same_origin_network_first [OF get_requests(1) site_origin(1) site_facts(1), of online fresh]
      same_origin_network_first [OF get_requests(1) site_origin(1) site_facts(1), of offline fresh]
      same_origin_network_first [OF get_requests(2) site_origin(2) site_facts(1), of offline installed]
      same_origin_network_first [OF get_requests(3) site_origin(3) site_facts(1), of ranged installed]
    by simp
qed

text \<open>
  C1 as stated fails after a plain install. The precache list does not contain
  \<^verbatim>\<open>/offline.html\<close>, so with the network down a page that was never cached gets
  \<^verbatim>\<open>undefined\<close>, although the server has an offline page; a URL that has no entry in
  the dynamic generation but one in the static generation gets the static entry, not the
  offline page; and an ok answer with status 206 is returned but not stored.
\<close>

theorem same_origin_offline_counterexample:
  "online (get_request (site @ ''/offline.html'')) = Some (page (site @ ''/offline.html'')) \<and>
   fst (on_fetch site offline about_request installed) = Some (Inr None) \<and>
   entry (caches installed) DYNAMIC_CACHE index_request = None \<and>
   fst (on_fetch site offline index_request installed) =
     Some (Inr (Some (page (site @ ''/index.html'')))) \<and>
   ranged about_request = Some partial_content \<and> ok partial_content \<and>
   fst (on_fetch site ranged about_request installed) = Some (Inr (Some partial_content)) \<and>
   entry (caches (snd (on_fetch site ranged about_request installed))) DYNAMIC_CACHE about_request =
     None"
proof -
  have a: "online (get_request (site @ ''/offline.html'')) = Some (page (site @ ''/offline.html''))"
    by (simp add: online_def get_request_def)
  have b: "fst (on_fetch site offline about_request installed) = Some (Inr None)"
    by (simp add: same_origin_dispatch [OF get_requests(3) site_origin(3)]
        handleSameOriginRequest_def fetch_def offline_def installed_lookups)
  have c: "entry (caches installed) DYNAMIC_CACHE index_request = None"
    by (simp add: entry_def installed_dynamic cache_match_def)
  have d: "fst (on_fetch site offline index_request installed) =
     Some (Inr (Some (page (site @ ''/index.html''))))"
    by (simp add: same_origin_dispatch [OF get_requests(1) site_origin(1)]
        handleSameOriginRequest_def fetch_def offline_def installed_lookups)
  have e: "ranged about_request = Some partial_content" "ok partial_content"
    by (simp_all add: ranged_def partial_content_def ok_def)
  have rej: "\<not> put_accepts about_request partial_content"
    by (simp add: put_accepts_def partial_content_def)
  have f: "fst (on_fetch site ranged about_request installed) = Some (Inr (Some partial_content))"
    by (simp add: same_origin_dispatch [OF get_requests(3) site_origin(3)]
        same_origin_answered [of ranged about_request, OF e(1)])
  have g: "entry (caches (snd (on_fetch site ranged about_request installed))) DYNAMIC_CACHE
             about_request = None"
    by (simp add: same_origin_dispatch [OF get_requests(3) site_origin(3)]
        same_origin_answered [of ranged about_request, OF e(1)] e(2)
        unawaited_put_rejected [OF rej] entry_def cache_of_caches_open installed_dynamic
        cache_match_def)
  from a b c d e f g show ?thesis by simp
qed

text \<open>
  C8, as the code has it: a same-origin GET answered with an ok response that the cache
  accepts (status other than 206, no \<^verbatim>\<open>*\<close> in \<^verbatim>\<open>Vary\<close>) and repeated with the network
  down returns that response, provided no generation created before the dynamic one holds
  a match for the request (\<^verbatim>\<open>caches.match\<close> returns the first match in creation order).
\<close>

theorem same_origin_round_trip:
  assumes "req_method req = ''GET''" and "url_origin (url req) = loc" and "http_scheme loc"
    and "net1 req = Some r" and "ok r" and "status r \<noteq> 206" and "\<not> vary_star r"
    and "net2 req = None"
    and "caches_match (takeWhile (\<lambda>(n, c). n \<noteq> DYNAMIC_CACHE) (caches st)) req = None"
  shows "fst (on_fetch loc net2 req (snd (on_fetch loc net1 req st))) = Some (Inr (Some r))"
proof -
  have "http_scheme (url req)"
    using assms(2,3) by (rule http_scheme_origin)
  then have acc: "put_accepts req r"
    using assms(1,6,7) by (simp add: put_accepts_def)
  have "caches (snd (on_fetch loc net1 req st)) =
        in_cache DYNAMIC_CACHE (\<lambda>c. add_item c req r) (caches_open (caches st) DYNAMIC_CACHE)"
    using assms(5) acc
    by (simp add: same_origin_dispatch [OF assms(1,2)] same_origin_answered [of net1 req, OF assms(4)]
        unawaited_put_accepted)
  then have "caches_match (caches (snd (on_fetch loc net1 req st))) req = Some r"
    using assms(9) by (simp add: caches_match_put_open [OF assms(1,7)])
  then show ?thesis
    using assms(8)
    by (simp add: same_origin_dispatch [OF assms(1,2)] handleSameOriginRequest_def fetch_def)
qed

text \<open>The round trip for a page that the install did not precache.\<close>

theorem same_origin_round_trip_witness:
  "req_method about_request = ''GET'' \<and> url_origin (url about_request) = site \<and>
   http_scheme site \<and>
   updated about_request = Some (page ''new version'') \<and>
   ok (page ''new version'') \<and> status (page ''new version'') \<noteq> 206 \<and>
   \<not> vary_star (page ''new version'') \<and>
   offline about_request = None \<and>
   caches_match (takeWhile (\<lambda>(n, c). n \<noteq> DYNAMIC_CACHE) (caches installed)) about_request = None \<and>
   fst (on_fetch site offline about_request (snd (on_fetch site updated about_request installed))) =
     Some (Inr (Some (page ''new version'')))"
proof -
  have n1: "updated about_request = Some (page ''new version'')"
    by (simp add: updated_def)
  have n2: "offline about_request = None"
    by (simp add: offline_def)
  have c: "caches_match (takeWhile (\<lambda>(n, c). n \<noteq> DYNAMIC_CACHE) (caches installed))
             about_request = None"
    using installed_lookups(3)
    by (simp add: installed_caches STATIC_CACHE_def DYNAMIC_CACHE_def)
  show ?thesis
    using n1 n2 c get_requests(3) site_origin(3) site_facts(1) page_facts
      same_origin_round_trip [where ?net1.0 = updated and ?net2.0 = offline,
        OF get_requests(3) site_origin(3) site_facts(1) n1 page_facts n2 c]
    by simp
qed

text \<open>
  C8 as stated fails for the precached pages: after an install, \<^verbatim>\<open>/index.html\<close> is
  fetched again and the network answers with a new version, which is stored in the
  dynamic generation; with the network down, the same request gets the version the install
  stored in the static generation. It also fails for an ok answer with status 206, which
  is never stored: with the network down the same request gets \<^verbatim>\<open>undefined\<close>.
\<close>

theorem same_origin_round_trip_counterexample:
  "updated index_request = Some (page ''new version'') \<and>
   ok (page ''new version'') \<and>
   entry (caches (snd (on_fetch site updated index_request installed)))
     DYNAMIC_CACHE index_request = Some (page ''new version'') \<and>
   fst (on_fetch site offline index_request (snd (on_fetch site updated index_request installed))) =
     Some (Inr (Some (page (site @ ''/index.html'')))) \<and>
   page (site @ ''/index.html'') \<noteq> page ''new version'' \<and>
   ranged about_request = Some partial_content \<and> ok partial_content \<and>
   fst (on_fetch site ranged about_request installed) = Some (Inr (Some partial_content)) \<and>
   fst (on_fetch site offline about_request (snd (on_fetch site ranged about_request installed))) =
     Some (Inr None)"
proof -
  have n1: "updated index_request = Some (page ''new version'')"
    by (simp add: updated_def)
  have acc: "put_accepts index_request (page ''new version'')"
    using http_scheme_append [OF site_facts(1), of "''/index.html''"]
    by (simp add: put_accepts_def get_requests page_facts index_request_def get_request_def)
  have st1: "caches (snd (on_fetch site updated index_request installed)) =
        in_cache DYNAMIC_CACHE (\<lambda>c. add_item c index_request (page ''new version''))
          (caches_open (caches installed) DYNAMIC_CACHE)"
    by (simp add: same_origin_dispatch [OF get_requests(1) site_origin(1)]
        same_origin_answered [of updated index_request, OF n1] page_facts unawaited_put_accepted [OF acc])
  have a: "entry (caches (snd (on_fetch site updated index_request installed)))
     DYNAMIC_CACHE index_request = Some (page ''new version'')"
    unfolding st1 by (rule entry_put_open [OF get_requests(1) page_facts(3)])
  have shadow: "caches_match (takeWhile (\<lambda>(n, c). n \<noteq> DYNAMIC_CACHE) (caches installed))
                  index_request = Some (page (site @ ''/index.html''))"
    using installed_lookups(1)
    by (simp add: installed_caches STATIC_CACHE_def DYNAMIC_CACHE_def)
  have m: "caches_match (caches (snd (on_fetch site updated index_request installed)))
             index_request = Some (page (site @ ''/index.html''))"
    unfolding st1 by (simp add: caches_match_put_open [OF get_requests(1) page_facts(3)] shadow)
  have down: "offline about_request = None" "offline index_request = None"
    by (simp_all add: offline_def)
  have b: "fst (on_fetch site offline index_request
                  (snd (on_fetch site updated index_request installed))) =
           Some (Inr (Some (page (site @ ''/index.html''))))"
    unfolding same_origin_unanswered
        [where net = offline, OF get_requests(1) site_origin(1) down(2)] m
    by simp
  have c: "page (site @ ''/index.html'') \<noteq> page ''new version''"
    by (simp add: page_def site_def)
  have e: "ranged about_request = Some partial_content" "ok partial_content"
    by (simp_all add: ranged_def partial_content_def ok_def)
  have rej: "\<not> put_accepts about_request partial_content"
    by (simp add: put_accepts_def partial_content_def)
  have f: "fst (on_fetch site ranged about_request installed) = Some (Inr (Some partial_content))"
    by (simp add: same_origin_dispatch [OF get_requests(3) site_origin(3)]
        same_origin_answered [of ranged about_request, OF e(1)])
  have st2: "caches (snd (on_fetch site ranged about_request installed)) =
             caches_open (caches installed) DYNAMIC_CACHE"
    by (simp add: same_origin_dispatch [OF get_requests(3) site_origin(3)]
        same_origin_answered [of ranged about_request, OF e(1)] e(2) unawaited_put_rejected [OF rej])
  have m2: "caches_match (caches_open (caches installed) DYNAMIC_CACHE) about_request = None"
    "caches_match (caches_open (caches installed) DYNAMIC_CACHE)
       (get_request (resolve_url site ''/offline.html'')) = None"
    using installed_lookups(3,4) by (simp_all add: caches_match_open)
  have g: "fst (on_fetch site offline about_request
                  (snd (on_fetch site ranged about_request installed))) = Some (Inr None)"
    unfolding same_origin_unanswered
        [where net = offline, OF get_requests(3) site_origin(3) down(1)] st2
    by (simp add: m2)
  from n1 page_facts(1) a b c e f g show ?thesis by simp
qed


subsection \<open>Requests to the recognised CDN origins\<close>

lemma str_includes_iff: "str_includes s sub \<longleftrightarrow> (\<exists>p q. s = p @ sub @ q)"
proof (induction s)
  case Nil
  then show ?case by simp
next
  case (Cons c cs)
  show ?case
  proof
    assume "str_includes (c # cs) sub"
    then consider "take (length sub) (c # cs) = sub" | "str_includes cs sub"
      by auto
    then show "\<exists>p q. c # cs = p @ sub @ q"
    proof cases
      case 1
      then have "c # cs = [] @ sub @ drop (length sub) (c # cs)"
        by (metis append_Nil append_take_drop_id)
      then show ?thesis by blast
    next
      case 2
      then obtain p q where "cs = p @ sub @ q" using Cons.IH by blast
      then have "c # cs = (c # p) @ sub @ q" by simp
      then show ?thesis by blast
    qed
  next
    assume "\<exists>p q. c # cs = p @ sub @ q"
    then obtain p q where pq: "c # cs = p @ sub @ q" by blast
    show "str_includes (c # cs) sub"
    proof (cases p)
      case Nil
      with pq have "take (length sub) (c # cs) = sub" by simp
      then show ?thesis by simp
    next
      case (Cons a p')
      with pq have "cs = p' @ sub @ q" by simp
      then have "str_includes cs sub" using Cons.IH by blast
      then show ?thesis by simp
    qed
  qed
qed

lemma tailwind_origin_url:
  assumes "str_includes (url_origin u) ''cdn.tailwindcss.com''"
  shows "str_includes u ''tailwindcss.com''"
proof -
  from assms obtain p q where "url_origin u = p @ ''cdn.tailwindcss.com'' @ q"
    unfolding str_includes_iff by blast
  moreover obtain t where "u = url_origin u @ t"
    unfolding url_origin_def using upto_slash_prefix by blast
  ultimately have "u = (p @ ''cdn.'') @ ''tailwindcss.com'' @ (q @ t)"
    by simp
  then show ?thesis
    unfolding str_includes_iff by blast
qed

lemma cdn_dispatch:
  "req_method req = ''GET'' \<Longrightarrow> url_origin (url req) \<noteq> loc \<Longrightarrow>
   str_includes (url_origin (url req)) ''cdn.tailwindcss.com'' \<or>
   str_includes (url_origin (url req)) ''fonts.googleapis.com'' \<or>
   str_includes (url_origin (url req)) ''cdnjs.cloudflare.com'' \<Longrightarrow>
   on_fetch loc net req st = map_prod Some id (handleCDNRequest net req st)"
  by (simp add: on_fetch_def Let_def)

lemma cdn_answered:
  "caches_match (caches st) req = None \<Longrightarrow> net req = Some r \<Longrightarrow>
   handleCDNRequest net req st =
     (Inr (Some r),
      if ok r
      then unawaited_put STATIC_CACHE req r
             (st\<lparr>network_log := network_log st @ [req],
                  caches := caches_open (caches st) STATIC_CACHE\<rparr>)
      else st\<lparr>network_log := network_log st @ [req]\<rparr>)"
  by (simp add: handleCDNRequest_def fetch_def)

lemma tailwind_request_cdn:
  "req_method tailwind_request = ''GET'' \<and> url_origin (url tailwind_request) \<noteq> site \<and>
   str_includes (url_origin (url tailwind_request)) ''cdn.tailwindcss.com''"
  by (simp add: tailwind_request_def get_request_def url_origin_def numeral_2_eq_2 site_def)

lemma tailwind_script_request_cdn:
  "req_method tailwind_script_request = ''GET'' \<and>
   url_origin (url tailwind_script_request) \<noteq> site \<and>
   str_includes (url_origin (url tailwind_script_request)) ''cdn.tailwindcss.com''"
  by (simp add: tailwind_script_request_def get_request_def url_origin_def numeral_2_eq_2 site_def)

lemma webfont_request_cdn:
  "req_method webfont_request = ''GET'' \<and> url_origin (url webfont_request) \<noteq> site \<and>
   str_includes (url_origin (url webfont_request)) ''cdnjs.cloudflare.com'' \<and>
   \<not> str_includes (url webfont_request) ''tailwindcss.com'' \<and>
   http_scheme (url webfont_request)"
  by (simp add: webfont_request_def get_request_def url_origin_def numeral_2_eq_2 site_def
      http_scheme_def)

lemma installed_cdn_lookups:
  "caches_match (caches installed) tailwind_request = Some (page ''https://cdn.tailwindcss.com/'')"
  "caches_match (caches installed) tailwind_script_request = None"
  "caches_match (caches installed) webfont_request = None"
  by (simp_all add: installed_caches cache_match_def request_matches_def strip_fragment_def
      tailwind_request_def tailwind_script_request_def webfont_request_def get_request_def
      vary_fields_def header_values_def page_def site_def)

lemma response_facts:
  "ok partial_content" "status partial_content = 206"
  "ok varying" "status varying \<noteq> 206" "vary_star varying"
  "\<not> ok not_found"
  by (simp_all add: partial_content_def varying_def not_found_def ok_def vary_star_def
      vary_fields_def header_values_def same_name_def ascii_lower_def trim_def)

text \<open>
  C5, as the code has it: a GET request to another origin that contains one of the three
  recognised CDN host names is answered from the cache when \<^verbatim>\<open>caches.match\<close> finds a
  match for it: the cached response is returned, the worker state is unchanged and no
  fetch is made. Only on a miss is the network asked, once, and the answer is returned.
  An ok answer that the cache accepts (an http(s) URL, status other than 206, no \<^verbatim>\<open>*\<close>
  in \<^verbatim>\<open>Vary\<close>) is stored in the static generation, where a lookup with the same request
  finds it, and nothing else in the storage changes; an answer that is not ok, has status
  206 or has \<^verbatim>\<open>*\<close> in \<^verbatim>\<open>Vary\<close> leaves the contents of every cache as they were.
\<close>

theorem cdn_cache_first:
  assumes "req_method req = ''GET''" and "url_origin (url req) \<noteq> loc"
    and "str_includes (url_origin (url req)) ''cdn.tailwindcss.com'' \<or>
         str_includes (url_origin (url req)) ''fonts.googleapis.com'' \<or>
         str_includes (url_origin (url req)) ''cdnjs.cloudflare.com''"
  shows "(\<forall>c. caches_match (caches st) req = Some c \<longrightarrow>
            fst (on_fetch loc net req st) = Some (Inr (Some c)) \<and>
            network_log (snd (on_fetch loc net req st)) = network_log st \<and>
            snd (on_fetch loc net req st) = st) \<and>
         (caches_match (caches st) req = None \<longrightarrow>
            network_log (snd (on_fetch loc net req st)) = network_log st @ [req] \<and>
            (\<forall>r. net req = Some r \<longrightarrow> fst (on_fetch loc net req st) = Some (Inr (Some r))) \<and>
            (\<forall>r. net req = Some r \<and> ok r \<and> http_scheme (url req) \<and> status r \<noteq> 206 \<and>
                  \<not> vary_star r \<longrightarrow>
                 entry (caches (snd (on_fetch loc net req st))) STATIC_CACHE req = Some r \<and>
                 cache_of (caches (snd (on_fetch loc net req st))) STATIC_CACHE =
                   add_item (cache_of (caches st) STATIC_CACHE) req r \<and>
                 (\<forall>n. n \<noteq> STATIC_CACHE \<longrightarrow>
                      cache_of (caches (snd (on_fetch loc net req st))) n =
                      cache_of (caches st) n)) \<and>
            (\<forall>r. net req = Some r \<and> (\<not> ok r \<or> status r = 206 \<or> vary_star r) \<longrightarrow>
                 (\<forall>n. cache_of (caches (snd (on_fetch loc net req st))) n =
                      cache_of (caches st) n)))"
proof (cases "caches_match (caches st) req")
  case (Some c)
  then show ?thesis
    by (simp add: cdn_dispatch [OF assms] handleCDNRequest_def)
next
  case miss: None
  show ?thesis
  proof (cases "net req")
    case None
    with miss show ?thesis
      by (simp add: cdn_dispatch [OF assms] handleCDNRequest_def fetch_def)
  next
    case (Some r)
    note d = cdn_dispatch [OF assms] cdn_answered [of st req net, OF miss Some]
    have log: "network_log (snd (on_fetch loc net req st)) = network_log st @ [req]"
      by (simp add: d)
    have res: "fst (on_fetch loc net req st) = Some (Inr (Some r))"
      by (simp add: d)
    have stored: "entry (caches (snd (on_fetch loc net req st))) STATIC_CACHE req = Some r \<and>
                 cache_of (caches (snd (on_fetch loc net req st))) STATIC_CACHE =
                   add_item (cache_of (caches st) STATIC_CACHE) req r \<and>
                 (\<forall>n. n \<noteq> STATIC_CACHE \<longrightarrow>
                      cache_of (caches (snd (on_fetch loc net req st))) n =
                      cache_of (caches st) n)"
      if "ok r" "http_scheme (url req)" "status r \<noteq> 206" "\<not> vary_star r"
    proof -
      have "put_accepts req r"
        using that assms(1) by (simp add: put_accepts_def)
      then show ?thesis
        using that assms(1)
        by (simp add: d unawaited_put_accepted entry_put_open cache_of_in_cache_open)
    qed
    have kept: "cache_of (caches (snd (on_fetch loc net req st))) n = cache_of (caches st) n"
      if "\<not> ok r \<or> status r = 206 \<or> vary_star r" for n
    proof (cases "ok r")
      case False
      then show ?thesis by (simp add: d)
    next
      case True
      with that have "\<not> put_accepts req r" by (auto simp add: put_accepts_def)
      with True show ?thesis
        by (simp add: d unawaited_put_rejected cache_of_caches_open)
    qed
    from miss Some log res stored kept show ?thesis by simp
  qed
qed

text \<open>
  After an install the CSS framework URL is a hit with the network down, and a web font
  that is not in the precache list is a miss that the network answers.
\<close>

theorem cdn_cache_first_witness:
  "req_method tailwind_request = ''GET'' \<and> url_origin (url tailwind_request) \<noteq> site \<and>
   str_includes (url_origin (url tailwind_request)) ''cdn.tailwindcss.com'' \<and>
   caches_match (caches installed) tailwind_request = Some (page ''https://cdn.tailwindcss.com/'') \<and>
   fst (on_fetch site offline tailwind_request installed) =
     Some (Inr (Some (page ''https://cdn.tailwindcss.com/''))) \<and>
   network_log (snd (on_fetch site offline tailwind_request installed)) = network_log installed \<and>
   caches_match (caches installed) webfont_request = None \<and>
   online webfont_request = Some (page (url webfont_request)) \<and> ok (page (url webfont_request)) \<and>
   network_log (snd (on_fetch site online webfont_request installed)) =
     network_log installed @ [webfont_request] \<and>
   entry (caches (snd (on_fetch site online webfont_request installed))) STATIC_CACHE
     webfont_request = Some (page (url webfont_request))"
proof -
  have net: "online webfont_request = Some (page (url webfont_request))"
    by (simp add: online_def)
  have t: "req_method tailwind_request = ''GET''" "url_origin (url tailwind_request) \<noteq> site"
    "str_includes (url_origin (url tailwind_request)) ''cdn.tailwindcss.com''"
    using tailwind_request_cdn by simp_all
  have w: "req_method webfont_request = ''GET''" "url_origin (url webfont_request) \<noteq> site"
    "str_includes (url_origin (url webfont_request)) ''cdnjs.cloudflare.com''"
    "http_scheme (url webfont_request)"
    using webfont_request_cdn by simp_all
  show ?thesis
    using installed_cdn_lookups net page_facts t w
      cdn_cache_first [of tailwind_request site installed offline]
      cdn_cache_first [of webfont_request site installed online]
    by simp
qed

text \<open>
  C5 as stated fails for ok answers that the cache refuses: after a miss, a 206 answer and
  a 200 answer with \<^verbatim>\<open>Vary: *\<close> are both returned, and neither is stored in the static
  generation.
\<close>

theorem cdn_refused_put_counterexample:
  "caches_match (caches installed) webfont_request = None \<and>
   ranged webfont_request = Some partial_content \<and> ok partial_content \<and>
   fst (on_fetch site ranged webfont_request installed) = Some (Inr (Some partial_content)) \<and>
   entry (caches (snd (on_fetch site ranged webfont_request installed))) STATIC_CACHE
     webfont_request = None \<and>
   negotiating webfont_request = Some varying \<and> ok varying \<and>
   fst (on_fetch site negotiating webfont_request installed) = Some (Inr (Some varying)) \<and>
   entry (caches (snd (on_fetch site negotiating webfont_request installed))) STATIC_CACHE
     webfont_request = None"
proof -
  have w: "req_method webfont_request = ''GET''" "url_origin (url webfont_request) \<noteq> site"
    "str_includes (url_origin (url webfont_request)) ''cdn.tailwindcss.com'' \<or>
     str_includes (url_origin (url webfont_request)) ''fonts.googleapis.com'' \<or>
     str_includes (url_origin (url webfont_request)) ''cdnjs.cloudflare.com''"
    using webfont_request_cdn by simp_all
  have n: "ranged webfont_request = Some partial_content"
    "negotiating webfont_request = Some varying"
    by (simp_all add: ranged_def negotiating_def)
  have rej: "\<not> put_accepts webfont_request partial_content"
    "\<not> put_accepts webfont_request varying"
    using response_facts by (simp_all add: put_accepts_def)
  have before: "entry (caches installed) STATIC_CACHE webfont_request = None"
    using installed_cdn_lookups(3)
    by (simp add: installed_caches entry_def cache_of_def split: option.splits)
  have a: "fst (on_fetch site ranged webfont_request installed) =
           Some (Inr (Some partial_content))"
    by (simp add: cdn_dispatch [OF w]
        cdn_answered [of installed webfont_request ranged, OF installed_cdn_lookups(3) n(1)])
  have b: "entry (caches (snd (on_fetch site ranged webfont_request installed))) STATIC_CACHE
             webfont_request = None"
    using before
    by (simp add: cdn_dispatch [OF w]
        cdn_answered [of installed webfont_request ranged, OF installed_cdn_lookups(3) n(1)]
        response_facts unawaited_put_rejected [OF rej(1)] entry_def cache_of_caches_open)
  have c: "fst (on_fetch site negotiating webfont_request installed) = Some (Inr (Some varying))"
    by (simp add: cdn_dispatch [OF w]
        cdn_answered [of installed webfont_request negotiating, OF installed_cdn_lookups(3) n(2)])
  have d: "entry (caches (snd (on_fetch site negotiating webfont_request installed))) STATIC_CACHE
             webfont_request = None"
    using before
    by (simp add: cdn_dispatch [OF w]
        cdn_answered [of installed webfont_request negotiating, OF installed_cdn_lookups(3) n(2)]
        response_facts unawaited_put_rejected [OF rej(2)] entry_def cache_of_caches_open)
  from installed_cdn_lookups(3) n response_facts(1,3) a b c d show ?thesis by simp
qed

text \<open>
  C6: when such a request misses the cache and its fetch rejects, a request whose URL
  contains \<^verbatim>\<open>tailwindcss.com\<close> (the test the source makes; every request to the
  \<^verbatim>\<open>cdn.tailwindcss.com\<close> origin passes it) is answered with the synthetic stylesheet,
  content type \<^verbatim>\<open>text/css\<close> and a placeholder comment as body; for every other URL the
  handler rejects with the error of the fetch.
\<close>

theorem cdn_total_failure:
  assumes "req_method req = ''GET''" and "url_origin (url req) \<noteq> loc"
    and "str_includes (url_origin (url req)) ''cdn.tailwindcss.com'' \<or>
         str_includes (url_origin (url req)) ''fonts.googleapis.com'' \<or>
         str_includes (url_origin (url req)) ''cdnjs.cloudflare.com''"
    and "caches_match (caches st) req = None" and "net req = None"
  shows "(str_includes (url req) ''tailwindcss.com'' \<longrightarrow>
            fst (on_fetch loc net req st) = Some (Inr (Some tailwind_fallback))) \<and>
         (\<not> str_includes (url req) ''tailwindcss.com'' \<longrightarrow>
            fst (on_fetch loc net req st) = Some (Inl TypeError)) \<and>
         (str_includes (url_origin (url req)) ''cdn.tailwindcss.com'' \<longrightarrow>
            fst (on_fetch loc net req st) = Some (Inr (Some tailwind_fallback))) \<and>
         map_of (headers tailwind_fallback) ''Content-Type'' = Some ''text/css'' \<and>
         body tailwind_fallback = ''/* Tailwind CSS fallback */'' \<and>
         caches (snd (on_fetch loc net req st)) = caches st"
  using assms(4,5) tailwind_origin_url [of "url req"]
  by (auto simp add: cdn_dispatch [OF assms(1-3)] handleCDNRequest_def fetch_def
      tailwind_fallback_def)

text \<open>With the network down, the framework script gets the fallback and a web font fails.\<close>

theorem cdn_total_failure_witness:
  "req_method tailwind_script_request = ''GET'' \<and>
   url_origin (url tailwind_script_request) \<noteq> site \<and>
   str_includes (url_origin (url tailwind_script_request)) ''cdn.tailwindcss.com'' \<and>
   caches_match (caches installed) tailwind_script_request = None \<and>
   offline tailwind_script_request = None \<and>
   fst (on_fetch site offline tailwind_script_request installed) =
     Some (Inr (Some tailwind_fallback)) \<and>
   req_method webfont_request = ''GET'' \<and> url_origin (url webfont_request) \<noteq> site \<and>
   str_includes (url_origin (url webfont_request)) ''cdnjs.cloudflare.com'' \<and>
   \<not> str_includes (url webfont_request) ''tailwindcss.com'' \<and>
   caches_match (caches installed) webfont_request = None \<and>
   offline webfont_request = None \<and>
   fst (on_fetch site offline webfont_request installed) = Some (Inl TypeError)"
proof -
  have down: "offline tailwind_script_request = None" "offline webfont_request = None"
    by (simp_all add: offline_def)
  have t: "req_method tailwind_script_request = ''GET''"
    "url_origin (url tailwind_script_request) \<noteq> site"
    "str_includes (url_origin (url tailwind_script_request)) ''cdn.tailwindcss.com''"
    using tailwind_script_request_cdn by simp_all
  have w: "req_method webfont_request = ''GET''" "url_origin (url webfont_request) \<noteq> site"
    "str_includes (url_origin (url webfont_request)) ''cdnjs.cloudflare.com''"
    "\<not> str_includes (url webfont_request) ''tailwindcss.com''"
    using webfont_request_cdn by simp_all
  show ?thesis
    using installed_cdn_lookups(2,3) down t w
      cdn_total_failure [of tailwind_script_request site installed offline]
      cdn_total_failure [of webfont_request site installed offline]
    by simp
qed


subsection \<open>What the fetch handlers write\<close>

lemma set_in_cache:
  "(n, c') \<in> set (in_cache name f cs) \<Longrightarrow>
   (n, c') \<in> set cs \<or> (n = name \<and> (\<exists>c0. (name, c0) \<in> set cs \<and> c' = f c0))"
  by (induction cs) (auto split: if_splits)

lemma set_caches_open: "set (caches_open cs name) \<subseteq> insert (name, []) (set cs)"
  by (auto simp add: caches_open_def)

lemma written_entries:
  assumes "(n, c) \<in> set (caches (unawaited_put name q0 r0
                                   (st\<lparr>caches := caches_open (caches st) name\<rparr>)))"
    and "(u, r) \<in> set c"
  shows "(u, r) = (q0, r0) \<or> (\<exists>c0. (n, c0) \<in> set (caches st) \<and> (u, r) \<in> set c0)"
proof (cases "put_accepts q0 r0")
  case False
  with assms(1) have "(n, c) \<in> set (caches_open (caches st) name)"
    by (simp add: unawaited_put_rejected)
  with set_caches_open [of "caches st" name] have "(n, c) = (name, []) \<or> (n, c) \<in> set (caches st)"
    by blast
  with assms(2) show ?thesis by auto
next
  case True
  with assms(1)
  have "(n, c) \<in> set (in_cache name (\<lambda>c. add_item c q0 r0) (caches_open (caches st) name))"
    by (simp add: unawaited_put_accepted)
  from set_in_cache [OF this]
  consider "(n, c) \<in> set (caches_open (caches st) name)"
    | c0 where "n = name" "(name, c0) \<in> set (caches_open (caches st) name)"
        "c = add_item c0 q0 r0"
    by blast
  then show ?thesis
  proof cases
    case 1
    with set_caches_open [of "caches st" name]
    have "(n, c) = (name, []) \<or> (n, c) \<in> set (caches st)" by blast
    with assms(2) show ?thesis by auto
  next
    case 2
    from 2(3) assms(2) set_add_item [of c0 q0 r0]
    have "(u, r) = (q0, r0) \<or> (u, r) \<in> set c0" by blast
    moreover from 2(2) set_caches_open [of "caches st" name]
    have "c0 = [] \<or> (name, c0) \<in> set (caches st)" by blast
    ultimately show ?thesis using 2(1) by auto
  qed
qed

lemma same_origin_writes_ok:
  assumes "(n, c) \<in> set (caches (snd (handleSameOriginRequest loc net req st)))"
    and "(u, r) \<in> set c"
  shows "ok r \<or> (\<exists>c0. (n, c0) \<in> set (caches st) \<and> (u, r) \<in> set c0)"
proof (cases "net req")
  case None
  with assms show ?thesis
    by (auto simp add: handleSameOriginRequest_def fetch_def split: option.splits)
next
  case (Some a)
  show ?thesis
  proof (cases "ok a")
    case True
    let ?st1 = "st\<lparr>network_log := network_log st @ [req]\<rparr>"
    from Some True assms(1)
    have "(n, c) \<in> set (caches (unawaited_put DYNAMIC_CACHE req a
                                  (?st1\<lparr>caches := caches_open (caches ?st1) DYNAMIC_CACHE\<rparr>)))"
      by (simp add: handleSameOriginRequest_def fetch_def)
    from written_entries [OF this assms(2)] True show ?thesis by auto
  next
    case False
    with Some assms show ?thesis
      by (auto simp add: handleSameOriginRequest_def fetch_def)
  qed
qed

lemma cdn_writes_ok:
  assumes "(n, c) \<in> set (caches (snd (handleCDNRequest net req st)))"
    and "(u, r) \<in> set c"
  shows "ok r \<or> (\<exists>c0. (n, c0) \<in> set (caches st) \<and> (u, r) \<in> set c0)"
proof (cases "caches_match (caches st) req")
  case (Some a)
  with assms show ?thesis
    by (auto simp add: handleCDNRequest_def)
next
  case miss: None
  show ?thesis
  proof (cases "net req")
    case None
    with miss assms show ?thesis
      by (auto simp add: handleCDNRequest_def fetch_def split: if_splits)
  next
    case (Some a)
    show ?thesis
    proof (cases "ok a")
      case True
      let ?st1 = "st\<lparr>network_log := network_log st @ [req]\<rparr>"
      from Some miss True assms(1)
      have "(n, c) \<in> set (caches (unawaited_put STATIC_CACHE req a
                                    (?st1\<lparr>caches := caches_open (caches ?st1) STATIC_CACHE\<rparr>)))"
        by (simp add: handleCDNRequest_def fetch_def)
      from written_entries [OF this assms(2)] True show ?thesis by auto
    next
      case False
      with Some miss assms show ?thesis
        by (auto simp add: handleCDNRequest_def fetch_def)
    qed
  qed
qed

text \<open>
  C10: every entry found in the storage after \<^verbatim>\<open>handleSameOriginRequest\<close> or
  \<^verbatim>\<open>handleCDNRequest\<close> either has an ok response or was already there, in the cache of
  the same name, before the call. A network response that is not ok is returned to the
  caller and the storage stays as it was.
\<close>

theorem fetch_handlers_cache_only_ok:
  "(\<forall>(n, c) \<in> set (caches (snd (handleSameOriginRequest loc net req st))).
      \<forall>(u, r) \<in> set c. ok r \<or> (\<exists>c0. (n, c0) \<in> set (caches st) \<and> (u, r) \<in> set c0)) \<and>
   (\<forall>(n, c) \<in> set (caches (snd (handleCDNRequest net req st))).
      \<forall>(u, r) \<in> set c. ok r \<or> (\<exists>c0. (n, c0) \<in> set (caches st) \<and> (u, r) \<in> set c0)) \<and>
   (\<forall>r. net req = Some r \<and> \<not> ok r \<longrightarrow>
      fst (handleSameOriginRequest loc net req st) = Inr (Some r) \<and>
      caches (snd (handleSameOriginRequest loc net req st)) = caches st) \<and>
   (\<forall>r. net req = Some r \<and> \<not> ok r \<and> caches_match (caches st) req = None \<longrightarrow>
      fst (handleCDNRequest net req st) = Inr (Some r) \<and>
      caches (snd (handleCDNRequest net req st)) = caches st)"
proof -
  have "\<forall>(n, c) \<in> set (caches (snd (handleSameOriginRequest loc net req st))).
      \<forall>(u, r) \<in> set c. ok r \<or> (\<exists>c0. (n, c0) \<in> set (caches st) \<and> (u, r) \<in> set c0)"
    using same_origin_writes_ok by blast
  moreover have "\<forall>(n, c) \<in> set (caches (snd (handleCDNRequest net req st))).
      \<forall>(u, r) \<in> set c. ok r \<or> (\<exists>c0. (n, c0) \<in> set (caches st) \<and> (u, r) \<in> set c0)"
    using cdn_writes_ok by blast
  moreover have "\<forall>r. net req = Some r \<and> \<not> ok r \<longrightarrow>
      fst (handleSameOriginRequest loc net req st) = Inr (Some r) \<and>
      caches (snd (handleSameOriginRequest loc net req st)) = caches st"
    by (simp add: handleSameOriginRequest_def fetch_def)
  moreover have "\<forall>r. net req = Some r \<and> \<not> ok r \<and> caches_match (caches st) req = None \<longrightarrow>
      fst (handleCDNRequest net req st) = Inr (Some r) \<and>
      caches (snd (handleCDNRequest net req st)) = caches st"
    by (simp add: handleCDNRequest_def fetch_def)
  ultimately show ?thesis by blast
qed

text \<open>
  A 404 answer is handed back and not stored, on both paths; a 200 answer is stored.
\<close>

theorem fetch_handlers_cache_only_ok_witness:
  "broken about_request = Some not_found \<and> \<not> ok not_found \<and>
   fst (handleSameOriginRequest site broken about_request installed) = Inr (Some not_found) \<and>
   caches (snd (handleSameOriginRequest site broken about_request installed)) = caches installed \<and>
   caches_match (caches installed) webfont_request = None \<and>
   fst (handleCDNRequest broken webfont_request installed) = Inr (Some not_found) \<and>
   caches (snd (handleCDNRequest broken webfont_request installed)) = caches installed \<and>
   (DYNAMIC_CACHE, [(about_request, page (url about_request))])
     \<in> set (caches (snd (handleSameOriginRequest site online about_request fresh))) \<and>
   ok (page (url about_request))"
proof -
  have b: "broken about_request = Some not_found" "broken webfont_request = Some not_found"
    by (simp_all add: broken_def)
  have up: "online about_request = Some (page (url about_request))"
    by (simp add: online_def)
  have acc: "put_accepts about_request (page (url about_request))"
    using http_scheme_append [OF site_facts(1), of "''/about.html''"]
    by (simp add: put_accepts_def get_requests page_facts about_request_def get_request_def)
  have mem: "(DYNAMIC_CACHE, [(about_request, page (url about_request))])
     \<in> set (caches (snd (handleSameOriginRequest site online about_request fresh)))"
    by (simp add: same_origin_answered [of online about_request, OF up] page_facts
        unawaited_put_accepted [OF acc] fresh_def caches_open_def add_item_def)
  show ?thesis
    using b response_facts(6) installed_cdn_lookups(3) mem page_facts(1)
      fetch_handlers_cache_only_ok [of site broken about_request installed]
      fetch_handlers_cache_only_ok [of site broken webfont_request installed]
      fetch_handlers_cache_only_ok [of site online about_request fresh]
    by simp
qed


subsection \<open>Install\<close>

text \<open>
  C2 (the install is meant to fail when the precache fails; the code does not fail it):
  with the network down, \<^verbatim>\<open>cache.addAll\<close> rejects, the \<^verbatim>\<open>.catch\<close> handler logs
  "Service Worker install failed:" and returns, and the promise the listener gave to
  \<^verbatim>\<open>event.waitUntil\<close> fulfils. The static generation exists and is empty, and
  \<^verbatim>\<open>skipWaiting\<close> was not called. The platform fails an install only when that promise
  rejects, so this version is installed and can activate.
\<close>

theorem install_failure_swallowed:
  "offline (get_request (resolve_url site ''/'')) = None \<and>
   fst (install site offline fresh) = Inr () \<and>
   caches (snd (install site offline fresh)) = [(STATIC_CACHE, [])] \<and>
   console (snd (install site offline fresh)) = [''Service Worker install failed:''] \<and>
   \<not> skipWaiting_called (snd (install site offline fresh))"
proof -
  have h: "list_all (\<lambda>q. http_scheme (url q))
             (map (\<lambda>u. get_request (resolve_url site u)) STATIC_FILES)"
    using manifest_http [OF site_facts(1)] by (simp add: list_all_iff get_request_def)
  have f: "fetch_all_ok offline (map (\<lambda>u. get_request (resolve_url site u)) STATIC_FILES) = None"
    by (simp add: STATIC_FILES_def offline_def)
  show ?thesis
    unfolding install_def cache_addAll_def Let_def
    using h by (simp add: f offline_def fresh_def caches_open_def)
qed






subsection \<open>Background sync\<close>

lemma entry_delete_open:
  "entry (in_cache name (\<lambda>c. cache_delete c q) (caches_open cs name)) name q = None"
  by (simp add: entry_def cache_of_in_cache_open cache_match_delete_same)

lemma entry_Some_open: "entry cs name q = Some r \<Longrightarrow> caches_open cs name = cs"
  by (cases "map_of cs name")
    (simp_all add: entry_def cache_of_def cache_match_def caches_open_exists)

text \<open>
  C7: on a sync event with the tag \<^verbatim>\<open>background-sync\<close>, when the dynamic generation
  holds an entry under \<^verbatim>\<open>/form-data\<close> whose body parses to a truthy value (a stored form
  submission), the worker makes exactly one request: a POST to \<^verbatim>\<open>/api/signup\<close> with
  content type \<^verbatim>\<open>application/json\<close> and the stringified value as body. The entry is
  deleted when the answer is ok, and nothing else in the storage changes; when the answer
  is not ok or the fetch rejects, the storage is exactly as before. Any other tag leaves
  the worker state alone.
\<close>

theorem background_sync_retry:
  assumes "entry (caches st) DYNAMIC_CACHE (get_request (resolve_url loc ''/form-data'')) =
             Some stored"
    and "parse (body stored) = Some formData" and "truthy formData"
  shows "network_log (on_sync loc parse truthy stringify net ''background-sync'' st) =
           network_log st @ [signup_request loc (stringify formData)] \<and>
         url (signup_request loc (stringify formData)) = loc @ ''/api/signup'' \<and>
         req_method (signup_request loc (stringify formData)) = ''POST'' \<and>
         map_of (req_headers (signup_request loc (stringify formData))) ''Content-Type'' =
           Some ''application/json'' \<and>
         req_body (signup_request loc (stringify formData)) = stringify formData \<and>
         (\<forall>resp. net (signup_request loc (stringify formData)) = Some resp \<and> ok resp \<longrightarrow>
            entry (caches (on_sync loc parse truthy stringify net ''background-sync'' st))
              DYNAMIC_CACHE (get_request (resolve_url loc ''/form-data'')) = None \<and>
            cache_of (caches (on_sync loc parse truthy stringify net ''background-sync'' st))
              DYNAMIC_CACHE =
              cache_delete (cache_of (caches st) DYNAMIC_CACHE)
                (get_request (resolve_url loc ''/form-data'')) \<and>
            (\<forall>n. n \<noteq> DYNAMIC_CACHE \<longrightarrow>
                 cache_of (caches (on_sync loc parse truthy stringify net ''background-sync'' st)) n =
                 cache_of (caches st) n)) \<and>
         (\<forall>resp. net (signup_request loc (stringify formData)) = Some resp \<and> \<not> ok resp \<longrightarrow>
            caches (on_sync loc parse truthy stringify net ''background-sync'' st) = caches st) \<and>
         (net (signup_request loc (stringify formData)) = None \<longrightarrow>
            caches (on_sync loc parse truthy stringify net ''background-sync'' st) = caches st) \<and>
         (\<forall>tag. tag \<noteq> ''background-sync'' \<longrightarrow>
            on_sync loc parse truthy stringify net tag st = st)"
proof -
  have op: "caches_open (caches st) DYNAMIC_CACHE = caches st"
    using assms(1) by (rule entry_Some_open)
  have get: "getStoredFormData loc parse st = (Some formData, st)"
    using assms(1,2) by (simp add: getStoredFormData_def Let_def op entry_def)
  show ?thesis
  proof (cases "net (signup_request loc (stringify formData))")
    case None
    then show ?thesis
      using assms(3)
      by (simp add: on_sync_def doBackgroundSync_def get fetch_def signup_request_def
          resolve_url_def)
  next
    case (Some resp)
    then show ?thesis
      using assms(3)
      by (simp add: on_sync_def doBackgroundSync_def get fetch_def clearStoredFormData_def
          entry_delete_open cache_of_in_cache_open signup_request_def
          resolve_url_def [of loc "''/api/signup''"])
  qed
qed

text \<open>
  One pending submission: an endpoint that accepts removes it, an endpoint that answers
  404 and a network that is down leave it.
\<close>

theorem background_sync_retry_witness:
  "entry (caches pending) DYNAMIC_CACHE (get_request (resolve_url site ''/form-data'')) =
     Some (page ''[42]'') \<and>
   json_text (body (page ''[42]'')) = Some ''[42]'' \<and>
   accepting (signup_request site ''[42]'') = Some (page ''accepted'') \<and> ok (page ''accepted'') \<and>
   entry (caches (on_sync site json_text (\<lambda>j. True) (\<lambda>j. j) accepting ''background-sync'' pending))
     DYNAMIC_CACHE (get_request (resolve_url site ''/form-data'')) = None \<and>
   broken (signup_request site ''[42]'') = Some not_found \<and> \<not> ok not_found \<and>
   caches (on_sync site json_text (\<lambda>j. True) (\<lambda>j. j) broken ''background-sync'' pending) =
     caches pending \<and>
   offline (signup_request site ''[42]'') = None \<and>
   caches (on_sync site json_text (\<lambda>j. True) (\<lambda>j. j) offline ''background-sync'' pending) =
     caches pending \<and>
   network_log (on_sync site json_text (\<lambda>j. True) (\<lambda>j. j) offline ''background-sync'' pending) =
     [signup_request site ''[42]'']"
proof -
  have e: "entry (caches pending) DYNAMIC_CACHE (get_request (resolve_url site ''/form-data'')) =
           Some (page ''[42]'')"
    by (simp add: pending_def fresh_def entry_def cache_of_def cache_match_def resolve_url_def
        request_matches_def get_request_def vary_fields_def header_values_def page_def)
  have p: "json_text (body (page ''[42]'')) = Some ''[42]''"
    by (simp add: json_text_def page_def)
  have n: "accepting (signup_request site ''[42]'') = Some (page ''accepted'')"
    "broken (signup_request site ''[42]'') = Some not_found"
    "offline (signup_request site ''[42]'') = None"
    by (simp_all add: accepting_def broken_def offline_def)
  have l: "network_log pending = []"
    by (simp add: pending_def fresh_def)
  show ?thesis
    using e p n l page_facts(1) response_facts(6)
      background_sync_retry [where st = pending and loc = site and stored = "page ''[42]''"
        and parse = json_text and formData = "''[42]''" and truthy = "\<lambda>j. True"
        and stringify = "\<lambda>j. j" and net = accepting, OF e p TrueI]
      background_sync_retry [where st = pending and loc = site and stored = "page ''[42]''"
        and parse = json_text and formData = "''[42]''" and truthy = "\<lambda>j. True"
        and stringify = "\<lambda>j. j" and net = broken, OF e p TrueI]
      background_sync_retry [where st = pending and loc = site and stored = "page ''[42]''"
        and parse = json_text and formData = "''[42]''" and truthy = "\<lambda>j. True"
        and stringify = "\<lambda>j. j" and net = offline, OF e p TrueI]
    by simp
qed

subsection \<open>Notification clicks\<close>

text \<open>
  C9, as the code has it: a click on a notification closes it; the site's root URL is
  opened in a window exactly when the clicked action is \<^verbatim>\<open>explore\<close>, the action the push
  listener titles "View Deal". Every other click, the action \<^verbatim>\<open>close\<close> and the click on
  the notification itself (empty action) included, opens nothing.
\<close>

theorem notificationclick_opens_on_explore:
  "\<not> notification_shown (on_notificationclick loc action st) \<and>
   (action = ''explore'' \<longrightarrow>
      windows (on_notificationclick loc action st) = windows st @ [loc @ ''/'']) \<and>
   (action \<noteq> ''explore'' \<longrightarrow> windows (on_notificationclick loc action st) = windows st) \<and>
   ((action, ''View Deal'') \<in> set notification_actions \<longleftrightarrow> action = ''explore'')"
  by (simp add: on_notificationclick_def Let_def resolve_url_def notification_actions_def)

text \<open>The "View Deal" button, and the "Close" button.\<close>

theorem notificationclick_opens_on_explore_witness:
  "\<not> notification_shown (on_notificationclick site ''explore'' fresh) \<and>
   windows (on_notificationclick site ''explore'' fresh) = [site @ ''/''] \<and>
   ''close'' \<noteq> ''explore'' \<and>
   windows (on_notificationclick site ''close'' fresh) = []"
  using notificationclick_opens_on_explore [of site "''explore''" fresh]
    notificationclick_opens_on_explore [of site "''close''" fresh]
  by (simp add: fresh_def)

text \<open>
  C9 as stated fails for the default click: a click on the notification itself has the
  empty action, which is no action of the notification, and no window is opened.
\<close>

theorem notificationclick_default_counterexample:
  "[] \<notin> set (map fst notification_actions) \<and>
   \<not> notification_shown (on_notificationclick site [] fresh) \<and>
   windows (on_notificationclick site [] fresh) = []"
  by (simp add: on_notificationclick_def Let_def fresh_def notification_actions_def)


end
